theory Spec2Isabelle
  imports Main "HOL-Library.AList"
begin

section \<open>Python values used by \<open>pydsm/model.py\<close>\<close>

text \<open>
  The exceptions that the modelled code can raise. The string is the message, or the
  name of the key, attribute or parameter that was missing.
\<close>

datatype error =
    TypeError string
  | KeyError string
  | AttributeError string
  | ValueError string
  | IndexError string

text \<open>
  A Python \<open>dict\<close> is an association list with distinct keys in insertion order.
  Storing under an existing key keeps the key's position, storing under a new key appends
  (\<open>AList.update\<close>); \<open>del d[k]\<close> is \<open>AList.delete\<close>.
\<close>

type_synonym ('k, 'v) dict = "('k \<times> 'v) list"

definition dict_contains :: "('k, 'v) dict \<Rightarrow> 'k \<Rightarrow> bool" where
  "dict_contains d k = (map_of d k \<noteq> None)"

definition dict_setitem :: "('k, 'v) dict \<Rightarrow> 'k \<Rightarrow> 'v \<Rightarrow> ('k, 'v) dict" where
  "dict_setitem d k v = AList.update k v d"

definition dict_getitem :: "(string, 'v) dict \<Rightarrow> string \<Rightarrow> error + 'v" where
  "dict_getitem d k = (case map_of d k of None \<Rightarrow> Inl (KeyError k) | Some v \<Rightarrow> Inr v)"

definition dict_get :: "('k, 'v) dict \<Rightarrow> 'k \<Rightarrow> 'v \<Rightarrow> 'v" where
  "dict_get d k dflt = (case map_of d k of None \<Rightarrow> dflt | Some v \<Rightarrow> v)"

text \<open>
  \<open>defaultdict.__getitem__\<close>: a missing key is inserted with the factory's value, and
  that value is returned.
\<close>

definition dd_getitem :: "'v \<Rightarrow> ('k, 'v) dict \<Rightarrow> 'k \<Rightarrow> 'v \<times> ('k, 'v) dict" where
  "dd_getitem dflt d k =
     (case map_of d k of Some v \<Rightarrow> (v, d) | None \<Rightarrow> (dflt, d @ [(k, dflt)]))"

text \<open>
  The values stored in a configuration mapping: booleans (\<open>ordered\<close>, \<open>directed\<close>) and
  integers (thresholds, \<open>dimensionality\<close>, \<open>num_indices\<close>). \<open>truthy\<close> is Python's
  truth value and \<open>as_int\<close> the number a value compares as (\<open>True == 1\<close>).
\<close>

datatype pyval = PBool bool | PInt int

fun truthy :: "pyval \<Rightarrow> bool" where
  "truthy (PBool b) = b"
| "truthy (PInt n) = (n \<noteq> 0)"

fun as_int :: "pyval \<Rightarrow> int" where
  "as_int (PBool b) = (if b then 1 else 0)"
| "as_int (PInt n) = n"

type_synonym config = "(string, pyval) dict"

type_synonym vocab = "(string, int) dict"

text \<open>
  \<open>xs[a:b]\<close> with Python's treatment of negative and too large bounds.
\<close>

definition py_slice :: "'a list \<Rightarrow> int \<Rightarrow> int \<Rightarrow> 'a list" where
  "py_slice xs a b =
     (let n = int (length xs);
          lo = (if a < 0 then max 0 (a + n) else min a n);
          hi = (if b < 0 then max 0 (b + n) else min b n)
      in take (nat (hi - lo)) (drop (nat lo) xs))"

text \<open>\<open>'{}'.format(n)\<close> for a natural number: its decimal digits.\<close>

fun str_of_nat :: "nat \<Rightarrow> string" where
  "str_of_nat n =
     (if n < 10 then [''0123456789'' ! n]
      else str_of_nat (n div 10) @ [''0123456789'' ! (n mod 10)])"

declare str_of_nat.simps [simp del]

text \<open>
  A generator is the list of the values it yields, followed by the exception that ended
  it, if one did. The consumer sees the values in order and then the exception.
\<close>

type_synonym 'a gen = "'a list \<times> error option"

section \<open>Corpus ingestion\<close>

text \<open>
  An element of a sentence is a token (a \<open>str\<close>) or a list of tokens (an n-gram group).
  An element of a corpus is a sentence that is already a list, or a raw line, which
  \<open>_read_documents\<close> tokenizes; a corpus given as a path is the list of its lines.
  \<open>tokenize\<close> is \<open>pydsm.utils.tokenize\<close>, outside this module, and is a parameter.
\<close>

datatype word = Tok string | Ngram "string list"

datatype line = Sentence "word list" | Raw string

type_synonym corpus = "line list"

fun flatten :: "word list \<Rightarrow> string list" where
  "flatten [] = []"
| "flatten (Tok c # context) = c # flatten context"
| "flatten (Ngram c # context) = c @ flatten context"

definition read_documents :: "(string \<Rightarrow> string list) \<Rightarrow> corpus \<Rightarrow> word list list" where
  "read_documents tokenize corpus =
     map (\<lambda>sentence. case sentence of Sentence ws \<Rightarrow> ws | Raw s \<Rightarrow> map Tok (tokenize s)) corpus"

section \<open>\<open>DSM._vocabularize\<close>\<close>

text \<open>
  \<open>[w for w in context if self.vocabulary[w] > lower_threshold]\<close>: reading the
  vocabulary, a \<open>defaultdict(int)\<close>, inserts every unseen token with frequency 0.
\<close>

fun keep_frequent :: "int \<Rightarrow> string list \<Rightarrow> vocab \<Rightarrow> string list \<times> vocab" where
  "keep_frequent thr [] v = ([], v)"
| "keep_frequent thr (w # ws) v =
     (let (n, v1) = dd_getitem 0 v w;
          (kept, v2) = keep_frequent thr ws v1
      in (if n > thr then w # kept else kept, v2))"

definition tag_side :: "string \<Rightarrow> string list \<Rightarrow> string list" where
  "tag_side suffix context = map (\<lambda>w. w @ suffix) context"

definition tag_position :: "string list \<Rightarrow> string list" where
  "tag_position context = map (\<lambda>(i, w). w @ ''_'' @ str_of_nat (i + 1)) (enumerate 0 context)"

definition window_left :: "int \<Rightarrow> word list \<Rightarrow> nat \<Rightarrow> string list" where
  "window_left wl sentence i =
     (let left = (if int i - wl > 0 then int i - wl else 0)
      in flatten (py_slice sentence left (int i)))"

definition window_right :: "int \<Rightarrow> word list \<Rightarrow> nat \<Rightarrow> string list" where
  "window_right wr sentence i =
     (let right = (if int i + wr + 1 \<le> int (length sentence) then int i + wr + 1
                   else int (length sentence))
      in flatten (py_slice sentence (int i + 1) right))"

text \<open>Lines 167 to 172 and the concatenation of line 174.\<close>

definition tag_contexts :: "config \<Rightarrow> string list \<Rightarrow> string list \<Rightarrow> string list" where
  "tag_contexts config context_left context_right =
     (let ordered = truthy (dict_get config ''ordered'' (PBool False));
          directed = truthy (dict_get config ''directed'' (PBool False));
          context_left1 =
            (if directed then tag_side ''_left'' context_left else context_left);
          context_right1 =
            (if directed then tag_side ''_right'' context_right else context_right);
          context_left2 =
            (if ordered then tag_position context_left1 else context_left1);
          context_right2 =
            (if ordered then tag_position context_right1 else context_right1)
      in context_left2 @ context_right2)"

text \<open>
  The body of \<open>for focus in focuses\<close> (lines 155 to 174): the pair it yields or the
  exception it raises, and the vocabulary afterwards. Line 156 compares and does nothing.
\<close>

definition emit_focus ::
  "int \<times> int \<Rightarrow> config \<Rightarrow> word list \<Rightarrow> nat \<Rightarrow> string \<Rightarrow> vocab
     \<Rightarrow> (error + string \<times> string list) \<times> vocab" where
  "emit_focus window_size config sentence i focus vocabulary =
     (let (n, v0) = dd_getitem 0 vocabulary focus;
          v1 = dict_setitem v0 focus (n + 1);
          context_left = window_left (fst window_size) sentence i;
          context_right = window_right (snd window_size) sentence i
      in case dict_getitem config ''lower_threshold'' of
           Inl e \<Rightarrow> (Inl e, v1)
         | Inr thr \<Rightarrow>
             (let (context_left1, v2) =
                    (if truthy thr then keep_frequent (as_int thr) context_left v1
                     else (context_left, v1));
                  (context_right1, v3) =
                    (if truthy thr then keep_frequent (as_int thr) context_right v2
                     else (context_right, v2))
              in (Inr (focus, tag_contexts config context_left1 context_right1), v3)))"

text \<open>
  The state of the running generator: the pairs yielded so far, the exception that ended
  it, and the vocabulary. After an exception nothing more is executed.
\<close>

type_synonym gen_state = "(string \<times> string list) list \<times> error option \<times> vocab"

definition focus_step ::
  "int \<times> int \<Rightarrow> config \<Rightarrow> word list \<Rightarrow> nat \<Rightarrow> string \<Rightarrow> gen_state \<Rightarrow> gen_state" where
  "focus_step window_size config sentence i focus st =
     (case st of
        (out, Some e, v) \<Rightarrow> st
      | (out, None, v) \<Rightarrow>
          (case emit_focus window_size config sentence i focus v of
             (Inl e, v') \<Rightarrow> (out, Some e, v')
           | (Inr p, v') \<Rightarrow> (out @ [p], None, v')))"

fun focuses_of :: "word \<Rightarrow> string list" where
  "focuses_of (Tok s) = [s]"
| "focuses_of (Ngram g) = g"

definition sentence_step ::
  "int \<times> int \<Rightarrow> config \<Rightarrow> word list \<Rightarrow> gen_state \<Rightarrow> gen_state" where
  "sentence_step window_size config sentence st =
     fold (\<lambda>(i, focuses) st'.
             fold (focus_step window_size config sentence i) (focuses_of focuses) st')
       (enumerate 0 sentence) st"

definition vocabularize ::
  "(string \<Rightarrow> string list) \<Rightarrow> int \<times> int \<Rightarrow> config \<Rightarrow> vocab \<Rightarrow> corpus \<Rightarrow> gen_state" where
  "vocabularize tokenize window_size config vocabulary corpus =
     fold (sentence_step window_size config) (read_documents tokenize corpus)
       ([], None, vocabulary)"

text \<open>The focus tokens of a list of sentences, in the order in which they are visited.\<close>

definition focus_tokens :: "word list list \<Rightarrow> string list" where
  "focus_tokens sentences = concat (map focuses_of (concat sentences))"

text \<open>
  The context of position \<open>i\<close> as the specification words it: the tokens at the
  positions from \<open>max(0, i - L)\<close> up to \<open>i\<close>, and those after \<open>i\<close> up to
  \<open>min(n, i + R + 1)\<close>, groups expanded in place.
\<close>

definition spec_context_left :: "int \<Rightarrow> word list \<Rightarrow> nat \<Rightarrow> string list" where
  "spec_context_left wl sentence i =
     concat (map (\<lambda>j. focuses_of (sentence ! j)) [nat (max 0 (int i - wl))..<i])"

definition spec_context_right :: "int \<Rightarrow> word list \<Rightarrow> nat \<Rightarrow> string list" where
  "spec_context_right wr sentence i =
     concat (map (\<lambda>j. focuses_of (sentence ! j))
               [i + 1..<nat (min (int (length sentence)) (int i + wr + 1))])"

text \<open>
  The visits of the generator in order: every sentence, every position of it and every
  token of the group at the position.
\<close>

definition visits :: "word list list \<Rightarrow> (word list \<times> nat \<times> string) list" where
  "visits sentences =
     concat (map (\<lambda>sentence.
       concat (map (\<lambda>(i, w). map (\<lambda>focus. (sentence, i, focus)) (focuses_of w))
                 (enumerate 0 sentence)))
       sentences)"

text \<open>
  The pairs as the specification words them (section 4.2, steps 1 to 7), for a
  \<open>lower_threshold\<close> that is present: at every visit the focus token's frequency goes
  up by one, the context lists are the tokens of the two spans, a truthy threshold keeps
  of them the tokens whose current frequency exceeds it, and the tagging is applied to
  what is kept. \<open>freq\<close> is the running frequency, 0 for a token not yet counted.
\<close>

fun spec_emitted ::
  "int \<times> int \<Rightarrow> config \<Rightarrow> pyval \<Rightarrow> (string \<Rightarrow> int) \<Rightarrow> (word list \<times> nat \<times> string) list
     \<Rightarrow> (string \<times> string list) list" where
  "spec_emitted window_size config thr freq [] = []"
| "spec_emitted window_size config thr freq ((sentence, i, focus) # rest) =
     (let freq' = freq(focus := freq focus + 1);
          context_left = spec_context_left (fst window_size) sentence i;
          context_right = spec_context_right (snd window_size) sentence i;
          kept_left = (if truthy thr then filter (\<lambda>w. freq' w > as_int thr) context_left
                       else context_left);
          kept_right = (if truthy thr then filter (\<lambda>w. freq' w > as_int thr) context_right
                        else context_right)
      in (focus, tag_contexts config kept_left kept_right)
         # spec_emitted window_size config thr freq' rest)"

section \<open>\<open>CooccurrenceDSM._build\<close>\<close>

type_synonym colloc = "(string, (string, int) dict) dict"

text \<open>The statement \<open>colfreqs[focus][context] += 1\<close> on a \<open>defaultdict\<close> of \<open>defaultdict(int)\<close>.\<close>

definition incr_count :: "colloc \<Rightarrow> string \<Rightarrow> string \<Rightarrow> colloc" where
  "incr_count colfreqs focus context =
     (let (inner, colfreqs1) = dd_getitem [] colfreqs focus;
          (n, inner1) = dd_getitem 0 inner context
      in dict_setitem colfreqs1 focus (dict_setitem inner1 context (n + 1)))"

definition count_pairs :: "(string \<times> string list) list \<Rightarrow> colloc \<Rightarrow> colloc" where
  "count_pairs pairs colfreqs =
     fold (\<lambda>(focus, contexts) c. fold (\<lambda>context c'. incr_count c' focus context) contexts c)
       pairs colfreqs"

definition CooccurrenceDSM_build :: "(string \<times> string list) gen \<Rightarrow> error + colloc" where
  "CooccurrenceDSM_build text =
     (let colfreqs = count_pairs (fst text) []
      in case snd text of Some e \<Rightarrow> Inl e | None \<Rightarrow> Inr colfreqs)"

text \<open>Reading \<open>counts[focus][context]\<close> from the result, an absent key reading as 0.\<close>

definition colloc_count :: "colloc \<Rightarrow> string \<Rightarrow> string \<Rightarrow> int" where
  "colloc_count c focus context = dict_get (dict_get c focus []) context 0"

text \<open>The number of times \<open>context\<close> occurs in the context lists paired with \<open>focus\<close>.\<close>

definition occurrences :: "(string \<times> string list) list \<Rightarrow> string \<Rightarrow> string \<Rightarrow> nat" where
  "occurrences pairs focus context =
     length (filter (\<lambda>c. c = context) (concat (map snd (filter (\<lambda>p. fst p = focus) pairs))))"

section \<open>\<open>DSM._filter_threshold_words\<close>\<close>

text \<open>
  \<open>lower_threshold <= freq <= higher_threshold\<close>, with the defaults 0 and
  \<open>float("inf")\<close> of \<open>config.get\<close>.
\<close>

definition in_bounds :: "config \<Rightarrow> int \<Rightarrow> bool" where
  "in_bounds config freq =
     (let lower_threshold = as_int (dict_get config ''lower_threshold'' (PInt 0))
      in lower_threshold \<le> freq \<and>
         (case map_of config ''higher_threshold'' of
            None \<Rightarrow> True
          | Some higher_threshold \<Rightarrow> freq \<le> as_int higher_threshold))"

text \<open>Lines 186 to 190: the word is deleted as a row and from every remaining row.\<close>

definition remove_word :: "string \<Rightarrow> colloc \<Rightarrow> colloc" where
  "remove_word word colloc_dict =
     (let d = (if dict_contains colloc_dict word then AList.delete word colloc_dict
               else colloc_dict)
      in map (\<lambda>(key, inner).
                (key, if dict_contains inner word then AList.delete word inner else inner)) d)"

definition filter_threshold_words :: "config \<Rightarrow> vocab \<Rightarrow> colloc \<Rightarrow> colloc" where
  "filter_threshold_words config vocabulary colloc_dict =
     fold (\<lambda>(word, freq) d. if \<not> in_bounds config freq then remove_word word d else d)
       vocabulary colloc_dict"

section \<open>\<open>RandomIndexing._build\<close>\<close>

text \<open>
  What the build uses from outside the module: \<open>pydsm.utils.tokenize\<close>, Python's
  \<open>hash\<close> on strings, and numpy's global random generator, whose state has type \<open>'g\<close>.
  \<open>np_random_seed s\<close> is the state after \<open>np.random.seed(s)\<close>;
  \<open>np_random_choice g indices n\<close> is the vector drawn by
  \<open>np.random.choice(indices, size=(1, n))[0]\<close> in state \<open>g\<close> with the state after the
  draw, or \<open>None\<close> where numpy raises \<open>ValueError\<close>.
\<close>

record 'g env =
  tokenize :: "string \<Rightarrow> string list"
  hash :: "string \<Rightarrow> int"
  np_random_seed :: "int \<Rightarrow> 'g"
  np_random_choice :: "'g \<Rightarrow> nat list \<Rightarrow> int \<Rightarrow> (nat list \<times> 'g) option"

definition np_arange :: "int \<Rightarrow> nat list" where
  "np_arange n = [0..<nat n]"

definition np_zeros :: "int \<Rightarrow> error + int list" where
  "np_zeros n =
     (if n < 0 then Inl (ValueError ''negative dimensions are not allowed'')
      else Inr (replicate (nat n) 0))"

text \<open>
  \<open>np.add.at(a, indices, c)\<close>: every occurrence of an index adds \<open>c\<close>; an index outside
  the array raises \<open>IndexError\<close>.
\<close>

fun np_add_at :: "int list \<Rightarrow> nat list \<Rightarrow> int \<Rightarrow> error + int list" where
  "np_add_at a [] c = Inr a"
| "np_add_at a (i # indices) c =
     (if i < length a then np_add_at (a[i := a ! i + c]) indices c
      else Inl (IndexError ''index out of bounds''))"

text \<open>Lines 372 and 373: \<open>v[:v.size//2]\<close> and \<open>v[v.size//2:]\<close>.\<close>

definition pos_half :: "nat list \<Rightarrow> nat list" where
  "pos_half v = take (length v div 2) v"

definition neg_half :: "nat list \<Rightarrow> nat list" where
  "neg_half v = drop (length v div 2) v"

type_synonym word_to_col = "(string, nat list) dict"

text \<open>
  Lines 365 to 370: the cached index vector of a context token, drawn on first sight
  after reseeding the generator from the token's hash.
\<close>

definition index_vector ::
  "'g env \<Rightarrow> config \<Rightarrow> nat list \<Rightarrow> string \<Rightarrow> word_to_col \<times> 'g
     \<Rightarrow> error + nat list \<times> word_to_col \<times> 'g" where
  "index_vector env config indices context st =
     (case st of (word_to_col, g) \<Rightarrow>
        (case map_of word_to_col context of
           Some v \<Rightarrow> Inr (v, word_to_col, g)
         | None \<Rightarrow>
             (let seed = hash env context mod 4294967295;
                  g1 = np_random_seed env seed
              in case dict_getitem config ''num_indices'' of
                   Inl e \<Rightarrow> Inl e
                 | Inr n \<Rightarrow>
                     (case np_random_choice env g1 indices (as_int n) of
                        None \<Rightarrow> Inl (ValueError ''choice'')
                      | Some (v, g2) \<Rightarrow> Inr (v, dict_setitem word_to_col context v, g2)))))"

text \<open>The loop \<open>for context in contexts\<close> (lines 364 to 373).\<close>

fun context_indices ::
  "'g env \<Rightarrow> config \<Rightarrow> nat list \<Rightarrow> string list
     \<Rightarrow> nat list list \<times> nat list list \<times> word_to_col \<times> 'g
     \<Rightarrow> error + nat list list \<times> nat list list \<times> word_to_col \<times> 'g" where
  "context_indices env config indices [] st = Inr st"
| "context_indices env config indices (context # contexts) st =
     (case st of (pos_context_indices, neg_context_indices, word_to_col, g) \<Rightarrow>
        (case index_vector env config indices context (word_to_col, g) of
           Inl e \<Rightarrow> Inl e
         | Inr (v, word_to_col', g') \<Rightarrow>
             context_indices env config indices contexts
               (pos_context_indices @ [pos_half v], neg_context_indices @ [neg_half v],
                word_to_col', g')))"

type_synonym 'g ri_state = "(string, int list) dict \<times> word_to_col \<times> 'g"

text \<open>The body of \<open>for focus, contexts in text\<close> (lines 359 to 378).\<close>

definition accumulate_pair ::
  "'g env \<Rightarrow> config \<Rightarrow> int \<Rightarrow> nat list \<Rightarrow> string \<times> string list \<Rightarrow> 'g ri_state
     \<Rightarrow> error + 'g ri_state" where
  "accumulate_pair env config dim indices pair st =
     (case (pair, st) of ((focus, contexts), (colfreqs, word_to_col, g)) \<Rightarrow>
        (case (case map_of colfreqs focus of Some row \<Rightarrow> Inr row | None \<Rightarrow> np_zeros dim) of
           Inl e \<Rightarrow> Inl e
         | Inr row \<Rightarrow>
             (case context_indices env config indices contexts ([], [], word_to_col, g) of
                Inl e \<Rightarrow> Inl e
              | Inr (pos_context_indices, neg_context_indices, word_to_col', g') \<Rightarrow>
                  (case (if pos_context_indices \<noteq> []
                         then np_add_at row (concat pos_context_indices) 1 else Inr row) of
                     Inl e \<Rightarrow> Inl e
                   | Inr row1 \<Rightarrow>
                       (case (if neg_context_indices \<noteq> []
                              then np_add_at row1 (concat neg_context_indices) (- 1)
                              else Inr row1) of
                          Inl e \<Rightarrow> Inl e
                        | Inr row2 \<Rightarrow>
                            Inr (dict_setitem colfreqs focus row2, word_to_col', g'))))))"

fun accumulate ::
  "'g env \<Rightarrow> config \<Rightarrow> int \<Rightarrow> nat list \<Rightarrow> (string \<times> string list) list \<Rightarrow> 'g ri_state
     \<Rightarrow> error + 'g ri_state" where
  "accumulate env config dim indices [] st = Inr st"
| "accumulate env config dim indices (pair # text) st =
     (case accumulate_pair env config dim indices pair st of
        Inl e \<Rightarrow> Inl e
      | Inr st' \<Rightarrow> accumulate env config dim indices text st')"

text \<open>
  The whole build: the triple (values, row labels, column labels) and the state of the
  random generator afterwards. \<open>np.vstack\<close> of no rows raises \<open>ValueError\<close>.
\<close>

definition RandomIndexing_build ::
  "'g env \<Rightarrow> config \<Rightarrow> 'g \<Rightarrow> (string \<times> string list) gen
     \<Rightarrow> error + (int list list \<times> string list \<times> nat list) \<times> 'g" where
  "RandomIndexing_build env config g text =
     (case dict_getitem config ''dimensionality'' of
        Inl e \<Rightarrow> Inl e
      | Inr d \<Rightarrow>
          (let indices = np_arange (as_int d)
           in case accumulate env config (as_int d) indices (fst text) ([], [], g) of
                Inl e \<Rightarrow> Inl e
              | Inr (colfreqs, word_to_col, g') \<Rightarrow>
                  (case snd text of
                     Some e \<Rightarrow> Inl e
                   | None \<Rightarrow>
                       (if colfreqs = []
                        then Inl (ValueError ''need at least one array to concatenate'')
                        else Inr ((map snd colfreqs, map fst colfreqs, indices), g')))))"

section \<open>Model instances and construction\<close>

text \<open>
  \<open>IndexMatrix\<close> is outside this module. A matrix is kept as the arguments it was
  constructed from: a nested frequency mapping, or values with row and column labels.
\<close>

datatype matrix =
    IndexMatrix_dict colloc
  | IndexMatrix_triple "int list list" "string list" "nat list"

datatype dsm_class = CooccurrenceDSM | RandomIndexing

text \<open>
  An instance is its class and its attribute dictionary. Reading an attribute that was
  never assigned raises \<open>AttributeError\<close>; the classes define no attribute \<open>corpus\<close>.
\<close>

datatype pyobj =
    Window "int list"
  | Config config
  | Vocabulary vocab
  | Matrix matrix
  | Corpus corpus

record dsm =
  cls :: dsm_class
  attrs :: "(string, pyobj) dict"

definition getattr :: "dsm \<Rightarrow> string \<Rightarrow> error + pyobj" where
  "getattr self name =
     (case map_of (attrs self) name of
        None \<Rightarrow> Inl (AttributeError name)
      | Some v \<Rightarrow> Inr v)"

text \<open>
  Lines 86 to 95: the matrix built from the corpus, with the vocabulary and the state of
  the random generator afterwards.
\<close>

definition build_matrix ::
  "'g env \<Rightarrow> dsm_class \<Rightarrow> int \<times> int \<Rightarrow> config \<Rightarrow> vocab \<Rightarrow> corpus \<Rightarrow> 'g
     \<Rightarrow> error + matrix \<times> vocab \<times> 'g" where
  "build_matrix env c window_size config vocabulary corpus g =
     (case vocabularize (tokenize env) window_size config vocabulary corpus of
        (out, raised, vocabulary') \<Rightarrow>
          (case c of
             CooccurrenceDSM \<Rightarrow>
               (case CooccurrenceDSM_build (out, raised) of
                  Inl e \<Rightarrow> Inl e
                | Inr colloc_dict \<Rightarrow>
                    Inr (IndexMatrix_dict (filter_threshold_words config vocabulary' colloc_dict),
                         vocabulary', g))
           | RandomIndexing \<Rightarrow>
               (case RandomIndexing_build env config g (out, raised) of
                  Inl e \<Rightarrow> Inl e
                | Inr ((values, row2word, col2word), g') \<Rightarrow>
                    Inr (IndexMatrix_triple values row2word col2word, vocabulary', g'))))"

text \<open>
  \<open>DSM.__init__\<close>. The parameter \<open>config\<close> has no default: \<open>None\<close> for it here means
  that the caller passed no such argument, \<open>Some None\<close> that the caller passed \<open>None\<close>.
  \<open>kwargs\<close> are the keyword options in call order, \<open>None\<close> for a value that is \<open>None\<close>.
\<close>

definition merge_kwargs :: "(string \<times> pyval option) list \<Rightarrow> config \<Rightarrow> config" where
  "merge_kwargs kwargs config =
     fold (\<lambda>(key, val) cfg. case val of None \<Rightarrow> cfg | Some v \<Rightarrow> dict_setitem cfg key v)
       kwargs config"

definition DSM_init ::
  "'g env \<Rightarrow> dsm_class \<Rightarrow> matrix option \<Rightarrow> corpus \<Rightarrow> int list \<Rightarrow> vocab option
     \<Rightarrow> config option option \<Rightarrow> (string \<times> pyval option) list \<Rightarrow> 'g
     \<Rightarrow> error + dsm \<times> 'g" where
  "DSM_init env c matrix corpus window_size vocabulary config kwargs g =
     (case config of
        None \<Rightarrow> Inl (TypeError ''__init__() missing 1 required positional argument: config'')
      | Some config \<Rightarrow>
          (if length window_size \<noteq> 2
           then Inl (TypeError ''Window size must be a tuple of length 2.'')
           else
             (let attrs1 = [(''window_size'', Window window_size)];
                  config1 = (case config of Some (kv # rest) \<Rightarrow> kv # rest | _ \<Rightarrow> []);
                  attrs2 = dict_setitem attrs1 ''config'' (Config config1);
                  attrs3 = (case vocabulary of
                              Some (kv # rest) \<Rightarrow>
                                dict_setitem attrs2 ''_vocabulary'' (Vocabulary (kv # rest))
                            | _ \<Rightarrow> attrs2);
                  config2 = merge_kwargs kwargs config1;
                  attrs4 = dict_setitem attrs3 ''config'' (Config config2)
              in case matrix of
                   None \<Rightarrow>
                     (case build_matrix env c (window_size ! 0, window_size ! 1) config2
                             (case vocabulary of Some v \<Rightarrow> v | None \<Rightarrow> []) corpus g of
                        Inl e \<Rightarrow> Inl e
                      | Inr (m, vocabulary', g') \<Rightarrow>
                          Inr (\<lparr>cls = c,
                                attrs = dict_setitem
                                          (dict_setitem attrs4 ''_vocabulary''
                                             (Vocabulary vocabulary'))
                                          ''matrix'' (Matrix m)\<rparr>, g'))
                 | Some m \<Rightarrow>
                     Inr (\<lparr>cls = c, attrs = dict_setitem attrs4 ''matrix'' (Matrix m)\<rparr>, g))))"

text \<open>
  \<open>CooccurrenceDSM.__init__\<close>: the call of \<open>DSM.__init__\<close> at lines 284 to 291 passes four
  positional arguments and four keyword options, and no \<open>config\<close>.
\<close>

definition CooccurrenceDSM_init ::
  "'g env \<Rightarrow> corpus \<Rightarrow> int list \<Rightarrow> matrix option \<Rightarrow> vocab option \<Rightarrow> pyval option
     \<Rightarrow> pyval option \<Rightarrow> pyval option \<Rightarrow> pyval option \<Rightarrow> 'g \<Rightarrow> error + dsm \<times> 'g" where
  "CooccurrenceDSM_init env corpus window_size matrix vocabulary lower_threshold
       higher_threshold ordered directed g =
     DSM_init env CooccurrenceDSM matrix corpus window_size vocabulary None
       [(''lower_threshold'', lower_threshold), (''higher_threshold'', higher_threshold),
        (''ordered'', ordered), (''directed'', directed)] g"

text \<open>\<open>RandomIndexing.__init__\<close> (lines 336 to 346).\<close>

definition RandomIndexing_init ::
  "'g env \<Rightarrow> corpus \<Rightarrow> int list \<Rightarrow> config option \<Rightarrow> pyval option \<Rightarrow> pyval option
     \<Rightarrow> pyval option \<Rightarrow> pyval option \<Rightarrow> vocab option \<Rightarrow> matrix option \<Rightarrow> pyval option
     \<Rightarrow> pyval option \<Rightarrow> 'g \<Rightarrow> error + dsm \<times> 'g" where
  "RandomIndexing_init env corpus window_size config lower_threshold higher_threshold
       dimensionality num_indices vocabulary matrix ordered directed g =
     DSM_init env RandomIndexing matrix corpus window_size vocabulary (Some config)
       [(''lower_threshold'', lower_threshold), (''higher_threshold'', higher_threshold),
        (''dimensionality'', dimensionality), (''num_indices'', num_indices),
        (''ordered'', ordered), (''directed'', directed)] g"

section \<open>\<open>DSM._new_instance\<close> and \<open>DSM.apply_weighting\<close>\<close>

text \<open>The \<open>vocabulary\<close> property: the stored mapping, or a new empty one.\<close>

definition vocabulary_of :: "dsm \<Rightarrow> vocab" where
  "vocabulary_of self =
     (case map_of (attrs self) ''_vocabulary'' of Some (Vocabulary v) \<Rightarrow> v | _ \<Rightarrow> [])"

text \<open>
  \<open>type(self)(corpus=self.corpus, window_size=self.window_size, matrix=matrix,
  vocabulary=self.vocabulary, config=self.config)\<close>: the arguments are evaluated from
  left to right, then the constructor of the instance's class is called with the
  defaults of its other parameters. \<open>CooccurrenceDSM.__init__\<close> has no parameter
  \<open>config\<close>; the keyword lands in its unused \<open>**kwargs\<close>.
\<close>

definition new_instance :: "'g env \<Rightarrow> dsm \<Rightarrow> matrix \<Rightarrow> 'g \<Rightarrow> error + dsm \<times> 'g" where
  "new_instance env self matrix g =
     (case getattr self ''corpus'' of
        Inl e \<Rightarrow> Inl e
      | Inr corpus \<Rightarrow>
          (case getattr self ''window_size'' of
             Inl e \<Rightarrow> Inl e
           | Inr window_size \<Rightarrow>
               (let vocabulary = vocabulary_of self
                in case getattr self ''config'' of
                     Inl e \<Rightarrow> Inl e
                   | Inr config \<Rightarrow>
                       (case (corpus, window_size, config) of
                          (Corpus c, Window w, Config cf) \<Rightarrow>
                            (case cls self of
                               CooccurrenceDSM \<Rightarrow>
                                 CooccurrenceDSM_init env c w (Some matrix) (Some vocabulary)
                                   None None (Some (PBool False)) (Some (PBool False)) g
                             | RandomIndexing \<Rightarrow>
                                 RandomIndexing_init env c w (Some cf) None None
                                   (Some (PInt 2000)) (Some (PInt 8)) (Some vocabulary)
                                   (Some matrix) (Some (PBool False)) (Some (PBool False)) g)
                        | _ \<Rightarrow> Inl (TypeError ''attribute of an unexpected type'')))))"

definition apply_weighting ::
  "'g env \<Rightarrow> (matrix \<Rightarrow> matrix) \<Rightarrow> dsm \<Rightarrow> 'g \<Rightarrow> error + dsm \<times> 'g" where
  "apply_weighting env weight_func self g =
     (case getattr self ''matrix'' of
        Inl e \<Rightarrow> Inl e
      | Inr (Matrix m) \<Rightarrow> new_instance env self (weight_func m) g
      | Inr _ \<Rightarrow> Inl (TypeError ''attribute of an unexpected type''))"

section \<open>Reading the results\<close>

text \<open>
  Modelled from the spec: \<open>IndexMatrix\<close> (module \<open>pydsm.indexmatrix\<close>) is not part of
  the source at hand. The specification has it map focus tokens to rows, so the row
  labels of a matrix made from a nested mapping are the mapping's outer keys, and those
  of a matrix made from a triple are the triple's second component.
\<close>

definition row_labels :: "matrix \<Rightarrow> string list" where
  "row_labels m =
     (case m of IndexMatrix_dict d \<Rightarrow> map fst d | IndexMatrix_triple values rows cols \<Rightarrow> rows)"

text \<open>
  The vocabulary lists the token with a frequency outside
  \<open>[lower_threshold, higher_threshold]\<close>. A token that the vocabulary does not list is
  not out of bounds in this sense, although the frequency 0 that the zero-default
  mapping would give for it may lie below the lower threshold.
\<close>

definition listed_out_of_bounds :: "config \<Rightarrow> vocab \<Rightarrow> string \<Rightarrow> bool" where
  "listed_out_of_bounds config vocabulary w =
     list_ex (\<lambda>(w', freq). w' = w \<and> \<not> in_bounds config freq) vocabulary"

text \<open>The nested mapping without the rows and the entries whose key is not kept.\<close>

definition restrict :: "(string \<Rightarrow> bool) \<Rightarrow> colloc \<Rightarrow> colloc" where
  "restrict keep d =
     map (\<lambda>(key, inner). (key, filter (\<lambda>(c, n). keep c) inner))
       (filter (\<lambda>(key, inner). keep key) d)"

text \<open>Every focus token yielded so far is a key of the vocabulary.\<close>

definition foci_counted :: "gen_state \<Rightarrow> bool" where
  "foci_counted st = (\<forall>p \<in> set (fst st). dict_contains (snd (snd st)) (fst p))"

section \<open>Properties of the random-indexing build\<close>

text \<open>
  What the build relies on from \<open>np.random.choice\<close>: for a non-empty population and a
  size that is not negative it returns that many members of the population.
\<close>

definition choice_ok :: "'g env \<Rightarrow> bool" where
  "choice_ok env =
     (\<forall>g indices n. indices \<noteq> [] \<and> 0 \<le> n \<longrightarrow>
        (\<exists>v g'. np_random_choice env g indices n = Some (v, g') \<and>
                 length v = nat n \<and> set v \<subseteq> set indices))"

text \<open>Invariants of the build: cached index vectors and accumulator rows fit the dimension.\<close>

definition cache_ok :: "nat \<Rightarrow> word_to_col \<Rightarrow> bool" where
  "cache_ok dim w2c = (\<forall>c v. map_of w2c c = Some v \<longrightarrow> (\<forall>i \<in> set v. i < dim))"


definition rows_ok :: "nat \<Rightarrow> (string, int list) dict \<Rightarrow> bool" where
  "rows_ok dim colfreqs = (\<forall>f row. map_of colfreqs f = Some row \<longrightarrow> length row = dim)"

text \<open>The row of a focus token, if there is one, is all zero.\<close>

definition zero_row_kept :: "int \<Rightarrow> string \<Rightarrow> (string, int list) dict \<Rightarrow> bool" where
  "zero_row_kept dim f colfreqs =
     (case map_of colfreqs f of None \<Rightarrow> True | Some row \<Rightarrow> row = replicate (nat dim) 0)"


text \<open>The kind of an exception, and the generator states that have raised no \<open>TypeError\<close>.\<close>

fun is_TypeError :: "error \<Rightarrow> bool" where
  "is_TypeError (TypeError m) = True"
| "is_TypeError e = False"

definition raised_ok :: "gen_state \<Rightarrow> bool" where
  "raised_ok st = (case fst (snd st) of None \<Rightarrow> True | Some e \<Rightarrow> \<not> is_TypeError e)"

section \<open>A concrete environment\<close>

text \<open>
  An environment on which the definitions can be evaluated: tokens are the maximal runs
  of characters other than the space, the hash is a polynomial in the character codes,
  and the state of the random generator is a number that the seed replaces and every
  draw advances.
\<close>

definition example_tokenize :: "string \<Rightarrow> string list" where
  "example_tokenize s =
     filter (\<lambda>w. w \<noteq> [])
       (foldr (\<lambda>c acc. if c = CHR '' '' then [] # acc
                        else (case acc of [] \<Rightarrow> [[c]] | w # ws \<Rightarrow> (c # w) # ws)) s [])"

definition example_hash :: "string \<Rightarrow> int" where
  "example_hash s = int (sum_list (map of_char s)) * 31 + int (length s)"

definition example_choice :: "nat \<Rightarrow> nat list \<Rightarrow> int \<Rightarrow> (nat list \<times> nat) option" where
  "example_choice g indices n =
     (if n < 0 \<or> (indices = [] \<and> 0 < n) then None
      else Some (map (\<lambda>k. indices ! ((g + k * k) mod length indices)) [0..<nat n],
                 g + nat n))"

definition example_env :: "nat env" where
  "example_env =
     \<lparr>tokenize = example_tokenize,
      hash = example_hash,
      np_random_seed = (\<lambda>s. nat s),
      np_random_choice = example_choice\<rparr>"

text \<open>A weighting function: every value is doubled.\<close>

definition double_values :: "matrix \<Rightarrow> matrix" where
  "double_values m =
     (case m of
        IndexMatrix_dict d \<Rightarrow> IndexMatrix_dict (map (\<lambda>(k, r). (k, map (\<lambda>(c, n). (c, 2 * n)) r)) d)
      | IndexMatrix_triple values rows cols \<Rightarrow>
          IndexMatrix_triple (map (map (\<lambda>n. 2 * n)) values) rows cols)"

section \<open>Facts about dictionaries\<close>

lemma map_of_dict_setitem:
  "map_of (dict_setitem d k v) k' = (if k' = k then Some v else map_of d k')"
  by (simp add: dict_setitem_def update_conv')

lemma map_of_dd_getitem:
  "map_of (snd (dd_getitem dflt d k)) k' =
     (if k' = k \<and> map_of d k = None then Some dflt else map_of d k')"
  by (cases "map_of d k") (auto simp: dd_getitem_def map_of_append map_add_def split: option.splits)

lemma fst_dd_getitem: "fst (dd_getitem dflt d k) = dict_get d k dflt"
  by (cases "map_of d k") (simp_all add: dd_getitem_def dict_get_def)

lemma dict_get_setitem:
  "dict_get (dict_setitem d k v) k' dflt = (if k' = k then v else dict_get d k' dflt)"
  by (simp add: dict_get_def map_of_dict_setitem)

lemma dict_get_dd_getitem:
  "dict_get (snd (dd_getitem dflt d k)) k' dflt = dict_get d k' dflt"
  by (simp add: dict_get_def map_of_dd_getitem split: option.splits)

section \<open>Co-occurrence counting is exact\<close>

lemma colloc_count_incr:
  "colloc_count (incr_count c f a) f' x =
     colloc_count c f' x + (if f' = f \<and> x = a then 1 else 0)"
proof -
  obtain inner c1 where g1: "dd_getitem [] c f = (inner, c1)" by (cases "dd_getitem [] c f")
  obtain n inner1 where g2: "dd_getitem 0 inner a = (n, inner1)" by (cases "dd_getitem 0 inner a")
  have inner: "inner = dict_get c f []" using g1 fst_dd_getitem [of "[]" c f] by simp
  have c1: "\<And>k. dict_get c1 k [] = dict_get c k []"
    using g1 dict_get_dd_getitem [of "[]" c f] by simp
  have n: "n = dict_get inner a 0" using g2 fst_dd_getitem [of 0 inner a] by simp
  have inner1: "\<And>k. dict_get inner1 k 0 = dict_get inner k 0"
    using g2 dict_get_dd_getitem [of 0 inner a] by simp
  have "incr_count c f a = dict_setitem c1 f (dict_setitem inner1 a (n + 1))"
    by (simp add: incr_count_def g1 g2)
  then show ?thesis
    by (simp add: colloc_count_def dict_get_setitem c1 inner1 n inner)
qed

lemma colloc_count_contexts:
  "colloc_count (fold (\<lambda>context c'. incr_count c' f context) cs c) f' x =
     colloc_count c f' x + (if f' = f then int (length (filter (\<lambda>c. c = x) cs)) else 0)"
  by (induction cs arbitrary: c) (simp_all add: colloc_count_incr)

lemma colloc_count_pairs:
  "colloc_count (count_pairs pairs c) f x = colloc_count c f x + int (occurrences pairs f x)"
proof (induction pairs arbitrary: c)
  case Nil
  then show ?case by (simp add: count_pairs_def occurrences_def)
next
  case (Cons p pairs)
  obtain f' cs where p: "p = (f', cs)" by (cases p)
  have "colloc_count (count_pairs (p # pairs) c) f x =
          colloc_count (count_pairs pairs (fold (\<lambda>context c'. incr_count c' f' context) cs c)) f x"
    by (simp add: count_pairs_def p)
  also have "\<dots> = colloc_count (fold (\<lambda>context c'. incr_count c' f' context) cs c) f x
                     + int (occurrences pairs f x)"
    by (rule Cons.IH)
  also have "\<dots> = colloc_count c f x + int (occurrences (p # pairs) f x)"
    by (simp add: colloc_count_contexts p occurrences_def)
  finally show ?case .
qed

lemma colloc_count_empty: "colloc_count [] f x = 0"
  by (simp add: colloc_count_def dict_get_def)

text \<open>
  Claim C4. For every finite sequence of (focus, contexts) pairs the co-occurrence
  accumulation returns a nested mapping in which \<open>counts[focus][context]\<close>, read with
  the default 0 for absent keys, is the number of occurrences of \<open>context\<close> in the
  context lists of \<open>focus\<close> across the whole sequence, duplicates counted each time.
\<close>

theorem cooccurrence_counts_exact:
  "\<exists>c. CooccurrenceDSM_build (pairs, None) = Inr c \<and>
       (\<forall>focus context. colloc_count c focus context = int (occurrences pairs focus context))"
  by (simp add: CooccurrenceDSM_build_def colloc_count_pairs colloc_count_empty)

text \<open>
  The pairs of the two sentences \<open>a b\<close> and \<open>a b\<close> with window (1, 1): the repeated pair
  is counted twice, the absent one reads as 0.
\<close>

theorem cooccurrence_counts_exact_witness:
  "\<exists>c. CooccurrenceDSM_build
          ([(''a'', [''b'']), (''b'', [''a'']), (''a'', [''b'']), (''b'', [''a''])], None) = Inr c \<and>
       colloc_count c ''a'' ''b'' = 2 \<and> colloc_count c ''a'' ''a'' = 0"
proof -
  from cooccurrence_counts_exact
    [of "[(''a'', [''b'']), (''b'', [''a'']), (''a'', [''b'']), (''b'', [''a''])]"]
  obtain c where
    c: "CooccurrenceDSM_build
          ([(''a'', [''b'']), (''b'', [''a'']), (''a'', [''b'']), (''b'', [''a''])], None) = Inr c"
    and n: "\<And>focus context. colloc_count c focus context =
          int (occurrences
            [(''a'', [''b'']), (''b'', [''a'']), (''a'', [''b'']), (''b'', [''a''])] focus context)"
    by blast
  have "colloc_count c ''a'' ''b'' = 2" and "colloc_count c ''a'' ''a'' = 0"
    by (simp_all add: n occurrences_def)
  with c show ?thesis by blast
qed

section \<open>Construction and re-weighting\<close>

lemma DSM_init_attrs:
  assumes "DSM_init env c matrix corpus ws vocabulary config kwargs g = Inr (self, g')"
  shows "map_of (attrs self) ''corpus'' = None \<and>
         (\<exists>m. map_of (attrs self) ''matrix'' = Some (Matrix m))"
proof -
  from assms obtain cfg where cfg: "config = Some cfg"
    by (cases config) (simp_all add: DSM_init_def)
  from assms cfg have len: "length ws = 2"
    by (simp add: DSM_init_def split: if_splits)
  define a3 where "a3 = (case vocabulary of
        Some (kv # rest) \<Rightarrow>
          dict_setitem (dict_setitem [(''window_size'', Window ws)] ''config''
             (Config (case cfg of Some (kv # rest) \<Rightarrow> kv # rest | _ \<Rightarrow> [])))
             ''_vocabulary'' (Vocabulary (kv # rest))
      | _ \<Rightarrow> dict_setitem [(''window_size'', Window ws)] ''config''
             (Config (case cfg of Some (kv # rest) \<Rightarrow> kv # rest | _ \<Rightarrow> [])))"
  have a3: "map_of a3 ''corpus'' = None"
    by (simp add: a3_def map_of_dict_setitem split: option.splits list.splits)
  show ?thesis
  proof (cases matrix)
    case None
    with assms cfg len obtain m v' where
      "attrs self = dict_setitem (dict_setitem (dict_setitem a3 ''config''
          (Config (merge_kwargs kwargs (case cfg of Some (kv # rest) \<Rightarrow> kv # rest | _ \<Rightarrow> []))))
          ''_vocabulary'' (Vocabulary v')) ''matrix'' (Matrix m)"
      by (auto simp: DSM_init_def Let_def a3_def split: sum.splits)
    then show ?thesis by (simp add: map_of_dict_setitem a3)
  next
    case (Some m)
    with assms cfg len have
      "attrs self = dict_setitem (dict_setitem a3 ''config''
          (Config (merge_kwargs kwargs (case cfg of Some (kv # rest) \<Rightarrow> kv # rest | _ \<Rightarrow> []))))
          ''matrix'' (Matrix m)"
      by (auto simp: DSM_init_def Let_def a3_def)
    then show ?thesis by (simp add: map_of_dict_setitem a3)
  qed
qed

text \<open>
  Claim C1 says that \<open>apply_weighting\<close> returns a new instance of the same class around
  the weighted matrix. On the code it returns nothing: \<open>_new_instance\<close> reads
  \<open>self.corpus\<close>, an attribute that no constructor assigns, so for every instance that
  \<open>DSM.__init__\<close> has produced, of either class and built or given its matrix, and for
  every weighting function, the call raises \<open>AttributeError\<close>.
\<close>

theorem apply_weighting_raises:
  assumes "DSM_init env c matrix corpus ws vocabulary config kwargs g = Inr (self, g')"
  shows "apply_weighting env weight_func self g'' = Inl (AttributeError ''corpus'')"
proof -
  from DSM_init_attrs [OF assms] obtain m where
    c: "map_of (attrs self) ''corpus'' = None" and
    m: "map_of (attrs self) ''matrix'' = Some (Matrix m)"
    by blast
  show ?thesis
    by (simp add: apply_weighting_def new_instance_def getattr_def c m)
qed

text \<open>
  A random-indexing model given a 2 by 2 matrix, with the weighting that doubles every
  value.
\<close>

theorem apply_weighting_raises_witness:
  "RandomIndexing_init example_env [] [1, 1] None None None (Some (PInt 2000)) (Some (PInt 8))
      None (Some (IndexMatrix_triple [[1, 2], [3, 4]] [''a'', ''b''] [0, 1]))
      (Some (PBool False)) (Some (PBool False)) 0
    = Inr (\<lparr>cls = RandomIndexing,
            attrs = [(''window_size'', Window [1, 1]),
                     (''config'', Config [(''dimensionality'', PInt 2000),
                                        (''num_indices'', PInt 8),
                                        (''ordered'', PBool False),
                                        (''directed'', PBool False)]),
                     (''matrix'',
                      Matrix (IndexMatrix_triple [[1, 2], [3, 4]] [''a'', ''b''] [0, 1]))]\<rparr>, 0)
   \<and> apply_weighting example_env double_values
        \<lparr>cls = RandomIndexing,
         attrs = [(''window_size'', Window [1, 1]),
                  (''config'', Config [(''dimensionality'', PInt 2000),
                                     (''num_indices'', PInt 8),
                                     (''ordered'', PBool False),
                                     (''directed'', PBool False)]),
                  (''matrix'',
                   Matrix (IndexMatrix_triple [[1, 2], [3, 4]] [''a'', ''b''] [0, 1]))]\<rparr> 0
      = Inl (AttributeError ''corpus'')"
proof -
  have h: "DSM_init example_env RandomIndexing
      (Some (IndexMatrix_triple [[1, 2], [3, 4]] [''a'', ''b''] [0, 1]))
      [] [1, 1] None (Some None)
      [(''lower_threshold'', None), (''higher_threshold'', None),
       (''dimensionality'', Some (PInt 2000)), (''num_indices'', Some (PInt 8)),
       (''ordered'', Some (PBool False)), (''directed'', Some (PBool False))] (0::nat)
    = Inr (\<lparr>cls = RandomIndexing,
            attrs = [(''window_size'', Window [1, 1]),
                     (''config'', Config [(''dimensionality'', PInt 2000),
                                        (''num_indices'', PInt 8),
                                        (''ordered'', PBool False),
                                        (''directed'', PBool False)]),
                     (''matrix'',
                      Matrix (IndexMatrix_triple [[1, 2], [3, 4]] [''a'', ''b''] [0, 1]))]\<rparr>, 0)"
    by (simp add: DSM_init_def dict_setitem_def merge_kwargs_def)
  show ?thesis
    using h apply_weighting_raises [OF h, of double_values 0]
    by (simp add: RandomIndexing_init_def)
qed

text \<open>
  Claim C2 says that construction fails with an invalid-argument error exactly when the
  window size does not have two elements. \<open>CooccurrenceDSM.__init__\<close> calls
  \<open>DSM.__init__\<close> without its required argument \<open>config\<close>, so every construction of a
  co-occurrence model raises \<open>TypeError\<close>, whatever the window size.
\<close>

theorem CooccurrenceDSM_init_raises:
  "CooccurrenceDSM_init env corpus window_size matrix vocabulary lower_threshold
     higher_threshold ordered directed g =
   Inl (TypeError ''__init__() missing 1 required positional argument: config'')"
  by (simp add: CooccurrenceDSM_init_def DSM_init_def)

section \<open>The halves of an index vector\<close>

text \<open>
  Claim C7, amended. The positive half of an index vector of length \<open>n\<close> is its first
  \<open>n div 2\<close> entries and the negative half the remainder; for even \<open>n\<close> the halves have
  the same length, and for odd \<open>n\<close> the negative half has one index more than the
  positive half.
\<close>

theorem index_vector_halves:
  assumes "length v = n"
  shows "pos_half v @ neg_half v = v \<and> length (pos_half v) = n div 2 \<and>
         length (neg_half v) = n - n div 2 \<and>
         (even n \<longrightarrow> length (neg_half v) = length (pos_half v)) \<and>
         (odd n \<longrightarrow> length (neg_half v) = length (pos_half v) + 1)"
  using assms by (auto simp: pos_half_def neg_half_def elim: oddE)

theorem index_vector_halves_witness:
  "length [5, 2, 7 :: nat] = 3 \<and> pos_half [5, 2, 7] = [5] \<and> neg_half [5, 2, 7] = [2, 7] \<and>
   odd (3 :: nat) \<and> length (neg_half [5, 2, 7]) = length (pos_half [5, 2, 7]) + 1"
  using index_vector_halves [of "[5, 2, 7]" 3] by (simp add: pos_half_def neg_half_def)

text \<open>
  The claim as stated, that for odd \<open>num_indices\<close> the negative half has one index fewer
  than the positive half, fails for a vector of three indices.
\<close>

theorem negative_half_one_fewer_counterexample:
  "odd (length [5, 2, 7 :: nat]) \<and>
   \<not> (length (neg_half [5, 2, 7]) + 1 = length (pos_half [5, 2, 7]))"
  by (simp add: pos_half_def neg_half_def)

section \<open>The context window\<close>

lemma flatten_concat: "flatten ws = concat (map focuses_of ws)"
  by (induction ws rule: flatten.induct) simp_all

lemma slice_upt:
  assumes "a \<le> b" "b \<le> length xs"
  shows "take (b - a) (drop a xs) = map (\<lambda>j. xs ! j) [a..<b]"
  using assms by (intro nth_equalityI) simp_all

lemma py_slice_upt:
  assumes "0 \<le> a" "0 \<le> b"
  shows "py_slice xs a b =
           map (\<lambda>j. xs ! j) [nat (min a (int (length xs)))..<nat (min b (int (length xs)))]"
proof (cases "a \<le> b")
  case True
  have "nat (min b (int (length xs)) - min a (int (length xs))) =
          nat (min b (int (length xs))) - nat (min a (int (length xs)))"
    using assms True by (simp add: nat_diff_distrib')
  moreover have "nat (min a (int (length xs))) \<le> nat (min b (int (length xs)))"
    using assms True by simp
  moreover have "nat (min b (int (length xs))) \<le> length xs" by simp
  ultimately show ?thesis
    using assms by (simp add: py_slice_def Let_def slice_upt)
next
  case False
  then show ?thesis using assms by (simp add: py_slice_def Let_def)
qed

lemma window_left_spec:
  assumes "i < length sentence"
  shows "window_left wl sentence i = spec_context_left wl sentence i"
proof -
  have "nat (min (max 0 (int i - wl)) (int (length sentence))) = nat (max 0 (int i - wl))
        \<or> i \<le> nat (max 0 (int i - wl))"
    using assms by linarith
  moreover have "nat (min (int i) (int (length sentence))) = i" using assms by simp
  moreover have "(if int i - wl > 0 then int i - wl else 0) = max 0 (int i - wl)" by simp
  ultimately show ?thesis
    using py_slice_upt [of "max 0 (int i - wl)" "int i" sentence]
    by (auto simp: window_left_def spec_context_left_def Let_def flatten_concat map_map comp_def)
qed

lemma window_right_spec:
  assumes "i < length sentence" "0 \<le> wr"
  shows "window_right wr sentence i = spec_context_right wr sentence i"
proof -
  have r: "(if int i + wr + 1 \<le> int (length sentence) then int i + wr + 1
            else int (length sentence)) = min (int (length sentence)) (int i + wr + 1)"
    by simp
  have "nat (min (int i + 1) (int (length sentence))) = i + 1" using assms by simp
  moreover have "min (min (int (length sentence)) (int i + wr + 1)) (int (length sentence))
                   = min (int (length sentence)) (int i + wr + 1)" by simp
  ultimately show ?thesis
    using py_slice_upt [of "int i + 1" "min (int (length sentence)) (int i + wr + 1)" sentence] assms
    by (simp add: window_right_def spec_context_right_def flatten_concat map_map comp_def r
        del: min.absorb1 min.absorb2 min.absorb3 min.absorb4)
qed


section \<open>The missing \<open>lower_threshold\<close>\<close>

lemma focus_step_raised [simp]:
  "focus_step ws config sentence i focus (out, Some e, v) = (out, Some e, v)"
  by (simp add: focus_step_def)

lemma fold_focus_step_raised [simp]:
  "fold (focus_step ws config sentence i) fs (out, Some e, v) = (out, Some e, v)"
  by (induction fs) simp_all

lemma positions_raised [simp]:
  "fold (\<lambda>(i, focuses) st'. fold (focus_step ws config sentence i) (focuses_of focuses) st')
          xs (out, Some e, v) = (out, Some e, v)"
  by (induction xs) (simp_all split: prod.splits)

lemma sentence_step_raised [simp]:
  "sentence_step ws config sentence (out, Some e, v) = (out, Some e, v)"
  by (simp add: sentence_step_def)

lemma fold_sentence_step_raised [simp]:
  "fold (sentence_step ws config) ss (out, Some e, v) = (out, Some e, v)"
  by (induction ss) simp_all

lemma focus_step_missing:
  assumes "map_of config ''lower_threshold'' = None"
  shows "\<exists>v'. focus_step ws config sentence i focus (out, None, v) =
           (out, Some (KeyError ''lower_threshold''), v')"
  using assms
  by (simp add: focus_step_def emit_focus_def dict_getitem_def Let_def split: prod.splits)

lemma fold_focus_step_missing:
  assumes "map_of config ''lower_threshold'' = None"
  shows "\<exists>v'. fold (focus_step ws config sentence i) fs (out, None, v) =
           (out, if fs = [] then None else Some (KeyError ''lower_threshold''), v')"
proof (cases fs)
  case Nil
  then show ?thesis by simp
next
  case (Cons f fs')
  from focus_step_missing [OF assms, of ws sentence i f out v] obtain v' where
    "focus_step ws config sentence i f (out, None, v) = (out, Some (KeyError ''lower_threshold''), v')" ..
  then show ?thesis by (simp add: Cons)
qed

lemma positions_missing:
  assumes "map_of config ''lower_threshold'' = None"
  shows "\<exists>v'. fold (\<lambda>(i, focuses) st'.
                  fold (focus_step ws config sentence i) (focuses_of focuses) st') xs (out, None, v) =
           (out, if concat (map (focuses_of \<circ> snd) xs) = [] then None
                 else Some (KeyError ''lower_threshold''), v')"
proof (induction xs arbitrary: v)
  case Nil
  then show ?case by simp
next
  case (Cons x xs)
  obtain i w where x: "x = (i, w)" by (cases x)
  from fold_focus_step_missing [OF assms, of ws sentence i "focuses_of w" out v] obtain v1 where
    s: "fold (focus_step ws config sentence i) (focuses_of w) (out, None, v) =
          (out, if focuses_of w = [] then None else Some (KeyError ''lower_threshold''), v1)" ..
  show ?case
  proof (cases "focuses_of w = []")
    case True
    with s Cons.IH [of v1] show ?thesis by (simp add: x)
  next
    case False
    with s show ?thesis by (simp add: x)
  qed
qed

lemma sentence_step_missing:
  assumes "map_of config ''lower_threshold'' = None"
  shows "\<exists>v'. sentence_step ws config sentence (out, None, v) =
           (out, if concat (map focuses_of sentence) = [] then None
                 else Some (KeyError ''lower_threshold''), v')"
proof -
  have "map (focuses_of \<circ> snd) (enumerate 0 sentence) = map focuses_of sentence"
    by (simp add: map_snd_enumerate flip: map_map)
  with positions_missing [OF assms, of ws sentence "enumerate 0 sentence" out v]
  show ?thesis by (simp add: sentence_step_def)
qed

lemma sentences_missing:
  assumes "map_of config ''lower_threshold'' = None"
  shows "\<exists>v'. fold (sentence_step ws config) ss (out, None, v) =
           (out, if focus_tokens ss = [] then None else Some (KeyError ''lower_threshold''), v')"
proof (induction ss arbitrary: v)
  case Nil
  then show ?case by (simp add: focus_tokens_def)
next
  case (Cons s ss)
  from sentence_step_missing [OF assms, of ws s out v] obtain v1 where
    s: "sentence_step ws config s (out, None, v) =
          (out, if concat (map focuses_of s) = [] then None
                else Some (KeyError ''lower_threshold''), v1)" ..
  show ?case
  proof (cases "concat (map focuses_of s) = []")
    case True
    with s Cons.IH [of v1] show ?thesis by (simp add: focus_tokens_def)
  next
    case False
    with s show ?thesis by (auto simp add: focus_tokens_def)
  qed
qed

text \<open>
  Claim C6, amended. If the configuration has no key \<open>lower_threshold\<close> and the corpus
  holds at least one focus token, the generator raises \<open>KeyError\<close> for that key when it
  is consumed, before it has yielded any pair.
\<close>

theorem missing_lower_threshold_raises:
  assumes "map_of config ''lower_threshold'' = None"
    and "focus_tokens (read_documents tok corpus) \<noteq> []"
  shows "\<exists>v'. vocabularize tok ws config vocabulary corpus =
           ([], Some (KeyError ''lower_threshold''), v')"
  using sentences_missing [OF assms(1), of ws "read_documents tok corpus" "[]" vocabulary] assms(2)
  by (simp add: vocabularize_def)

theorem missing_lower_threshold_raises_witness:
  "map_of ([] :: config) ''lower_threshold'' = None \<and>
   focus_tokens (read_documents example_tokenize [Raw ''a b'']) \<noteq> [] \<and>
   (\<exists>v'. vocabularize example_tokenize (1, 1) [] [] [Raw ''a b''] =
           ([], Some (KeyError ''lower_threshold''), v'))"
  using missing_lower_threshold_raises [of "[]" example_tokenize "[Raw ''a b'']" "(1, 1)" "[]"]
  by (simp add: focus_tokens_def read_documents_def example_tokenize_def)

text \<open>
  The claim as stated asks only for a non-empty corpus. A corpus of one empty sentence is
  not empty, and its generator ends without raising.
\<close>

theorem missing_lower_threshold_empty_sentence_counterexample:
  "[Sentence []] \<noteq> [] \<and> map_of ([] :: config) ''lower_threshold'' = None \<and>
   vocabularize example_tokenize (1, 1) [] [] [Sentence []] = ([], None, [])"
  by (simp add: vocabularize_def read_documents_def sentence_step_def)

section \<open>The pairs of the generator\<close>

lemma keep_frequent_filter:
  "fst (keep_frequent thr ws v) = filter (\<lambda>w. dict_get v w 0 > thr) ws \<and>
   (\<forall>k. dict_get (snd (keep_frequent thr ws v)) k 0 = dict_get v k 0)"
proof (induction ws arbitrary: v)
  case Nil
  then show ?case by simp
next
  case (Cons w ws)
  define v1 where "v1 = snd (dd_getitem 0 v w)"
  have v1: "\<And>k. dict_get v1 k 0 = dict_get v k 0"
    by (simp add: v1_def dict_get_dd_getitem)
  have n: "fst (dd_getitem 0 v w) = dict_get v w 0" by (rule fst_dd_getitem)
  have unfold: "keep_frequent thr (w # ws) v =
      (if dict_get v w 0 > thr then w # fst (keep_frequent thr ws v1)
       else fst (keep_frequent thr ws v1), snd (keep_frequent thr ws v1))"
    by (simp add: case_prod_beta v1_def n)
  from Cons.IH [of v1] show ?case
    by (simp add: unfold v1 del: keep_frequent.simps)
qed

lemma emit_focus_spec:
  assumes "map_of config ''lower_threshold'' = Some thr" "i < length sentence" "0 \<le> R"
  shows "\<exists>v'. emit_focus (L, R) config sentence i focus v =
           (Inr (hd (spec_emitted (L, R) config thr (\<lambda>w. dict_get v w 0)
                       [(sentence, i, focus)])), v') \<and>
           (\<lambda>w. dict_get v' w 0) = (\<lambda>w. dict_get v w 0)(focus := dict_get v focus 0 + 1)"
proof -
  define v1 where "v1 = dict_setitem (snd (dd_getitem 0 v focus)) focus
                          (fst (dd_getitem 0 v focus) + 1)"
  have v1: "(\<lambda>w. dict_get v1 w 0) = (\<lambda>w. dict_get v w 0)(focus := dict_get v focus 0 + 1)"
    by (rule ext) (simp add: v1_def dict_get_setitem dict_get_dd_getitem fst_dd_getitem)
  have wl: "window_left L sentence i = spec_context_left L sentence i"
    using assms(2) by (rule window_left_spec)
  have wr: "window_right R sentence i = spec_context_right R sentence i"
    using assms(2,3) by (rule window_right_spec)
  show ?thesis
  proof (cases "truthy thr")
    case False
    have "emit_focus (L, R) config sentence i focus v =
            (Inr (focus, tag_contexts config (spec_context_left L sentence i)
                                            (spec_context_right R sentence i)), v1)"
      using False assms(1)
      by (simp add: emit_focus_def case_prod_beta dict_getitem_def v1_def wl wr)
    with False v1 show ?thesis by simp
  next
    case True
    define l where "l = keep_frequent (as_int thr) (spec_context_left L sentence i) v1"
    define r where "r = keep_frequent (as_int thr) (spec_context_right R sentence i) (snd l)"
    have e: "emit_focus (L, R) config sentence i focus v =
            (Inr (focus, tag_contexts config (fst l) (fst r)), snd r)"
      using True assms(1)
      by (simp add: emit_focus_def case_prod_beta dict_getitem_def v1_def l_def r_def wl wr
          Let_def)
    have fl: "fst l = filter (\<lambda>w. dict_get v1 w 0 > as_int thr) (spec_context_left L sentence i)"
      and sl: "\<And>k. dict_get (snd l) k 0 = dict_get v1 k 0"
      using keep_frequent_filter [of "as_int thr" "spec_context_left L sentence i" v1]
      by (simp_all add: l_def)
    have fr: "fst r = filter (\<lambda>w. dict_get v1 w 0 > as_int thr) (spec_context_right R sentence i)"
      and sr: "\<And>k. dict_get (snd r) k 0 = dict_get v1 k 0"
      using keep_frequent_filter [of "as_int thr" "spec_context_right R sentence i" "snd l"]
      by (simp_all add: r_def sl)
    have f': "\<And>w. ((\<lambda>w. dict_get v w 0)(focus := dict_get v focus 0 + 1)) w = dict_get v1 w 0"
      using v1 by (metis)
    have "(\<lambda>w. dict_get (snd r) w 0) = (\<lambda>w. dict_get v w 0)(focus := dict_get v focus 0 + 1)"
      using v1 by (simp add: sr)
    moreover have "hd (spec_emitted (L, R) config thr (\<lambda>w. dict_get v w 0)
                       [(sentence, i, focus)]) =
        (focus, tag_contexts config (fst l) (fst r))"
      using True by (simp add: Let_def fl fr f' del: fun_upd_apply)
    ultimately show ?thesis using e by simp
  qed
qed

lemma spec_emitted_Cons:
  "spec_emitted ws config thr freq (x # rest) =
     hd (spec_emitted ws config thr freq [x])
     # spec_emitted ws config thr
         (freq(snd (snd x) := freq (snd (snd x)) + 1)) rest"
  by (cases x) (simp add: Let_def)

lemma fold_visits_spec:
  assumes "map_of config ''lower_threshold'' = Some thr" "0 \<le> R"
  shows "\<forall>x \<in> set vs. fst (snd x) < length (fst x) \<Longrightarrow>
         \<exists>v'. fold (\<lambda>(s, i, f). focus_step (L, R) config s i f) vs (out, None, v) =
           (out @ spec_emitted (L, R) config thr (\<lambda>w. dict_get v w 0) vs, None, v')"
proof (induction vs arbitrary: out v)
  case Nil
  then show ?case by simp
next
  case (Cons x vs)
  obtain s i f where x: "x = (s, i, f)" by (cases x)
  from Cons.prems have i: "i < length s" by (simp add: x)
  from emit_focus_spec [OF assms(1) i assms(2), of L f v] obtain v1 where
    e: "emit_focus (L, R) config s i f v =
          (Inr (hd (spec_emitted (L, R) config thr (\<lambda>w. dict_get v w 0) [(s, i, f)])), v1)"
    and v1: "(\<lambda>w. dict_get v1 w 0) = (\<lambda>w. dict_get v w 0)(f := dict_get v f 0 + 1)"
    by blast
  from Cons.prems have "\<forall>x \<in> set vs. fst (snd x) < length (fst x)" by simp
  from Cons.IH [OF this, of "out @ [hd (spec_emitted (L, R) config thr (\<lambda>w. dict_get v w 0) [(s, i, f)])]" v1]
  obtain v' where
    r: "fold (\<lambda>(s, i, f). focus_step (L, R) config s i f) vs
          (out @ [hd (spec_emitted (L, R) config thr (\<lambda>w. dict_get v w 0) [(s, i, f)])], None, v1)
        = ((out @ [hd (spec_emitted (L, R) config thr (\<lambda>w. dict_get v w 0) [(s, i, f)])])
            @ spec_emitted (L, R) config thr (\<lambda>w. dict_get v1 w 0) vs, None, v')"
    by blast
  have s: "focus_step (L, R) config s i f (out, None, v) =
      (out @ [hd (spec_emitted (L, R) config thr (\<lambda>w. dict_get v w 0) [(s, i, f)])], None, v1)"
    by (simp add: focus_step_def e)
  have c: "spec_emitted (L, R) config thr (\<lambda>w. dict_get v w 0) (x # vs) =
      hd (spec_emitted (L, R) config thr (\<lambda>w. dict_get v w 0) [(s, i, f)])
      # spec_emitted (L, R) config thr (\<lambda>w. dict_get v1 w 0) vs"
    by (simp add: x v1 Let_def)
  show ?case
    unfolding c by (simp add: x s r del: spec_emitted.simps)
qed

lemma positions_visits:
  "fold (\<lambda>(i, focuses) st'. fold (focus_step ws config sentence i) (focuses_of focuses) st')
      xs st =
   fold (\<lambda>(s, i, f). focus_step ws config s i f)
      (concat (map (\<lambda>(i, w). map (\<lambda>focus. (sentence, i, focus)) (focuses_of w)) xs)) st"
proof (induction xs arbitrary: st)
  case Nil
  then show ?case by simp
next
  case (Cons x xs)
  obtain i w where x: "x = (i, w)" by (cases x)
  have "fold (\<lambda>(s, i, f). focus_step ws config s i f)
          (map (\<lambda>focus. (sentence, i, focus)) (focuses_of w)) st
        = fold (focus_step ws config sentence i) (focuses_of w) st"
    by (simp add: fold_map comp_def)
  then show ?case by (simp add: x Cons.IH)
qed

lemma sentences_visits:
  "fold (sentence_step ws config) sentences st =
   fold (\<lambda>(s, i, f). focus_step ws config s i f) (visits sentences) st"
proof (induction sentences arbitrary: st)
  case Nil
  then show ?case by (simp add: visits_def)
next
  case (Cons s sentences)
  have "visits (s # sentences) =
      concat (map (\<lambda>(i, w). map (\<lambda>focus. (s, i, focus)) (focuses_of w)) (enumerate 0 s))
      @ visits sentences"
    by (simp add: visits_def)
  moreover have "sentence_step ws config s st =
      fold (\<lambda>(s, i, f). focus_step ws config s i f)
        (concat (map (\<lambda>(i, w). map (\<lambda>focus. (s, i, focus)) (focuses_of w)) (enumerate 0 s))) st"
    by (simp add: sentence_step_def positions_visits)
  moreover have "fold (sentence_step ws config) (s # sentences) st =
      fold (\<lambda>(s, i, f). focus_step ws config s i f) (visits sentences)
        (sentence_step ws config s st)"
    using Cons.IH [of "sentence_step ws config s st"] by simp
  ultimately show ?case by simp
qed

lemma visits_index: "x \<in> set (visits sentences) \<Longrightarrow> fst (snd x) < length (fst x)"
  by (auto simp: visits_def in_set_enumerate_eq)

text \<open>
  Claim C3. Let the window size be \<open>(L, R)\<close> with \<open>R\<close> not negative. Under every
  configuration the pairs that the generator yields are these: none if \<open>lower_threshold\<close>
  is missing, and otherwise, with no exception raised, one pair per visit in order, whose
  context list is obtained by threshold filtering (if the threshold is truthy) and
  tagging (if \<open>directed\<close> or \<open>ordered\<close> is on) from exactly the tokens at the positions
  from \<open>max(0, i - L)\<close> up to \<open>i\<close> followed by those after \<open>i\<close> up to
  \<open>min(n, i + R + 1)\<close>, groups expanded. A visit is a sentence, a position \<open>i\<close> of it and
  a token of the group at that position, so the same span serves every token of a group,
  also when \<open>ordered\<close> is on.
\<close>

theorem emitted_contexts_are_window:
  assumes "0 \<le> R"
  shows "case map_of config ''lower_threshold'' of
           None \<Rightarrow> fst (vocabularize tok (L, R) config vocabulary corpus) = []
         | Some thr \<Rightarrow>
             (\<exists>v'. vocabularize tok (L, R) config vocabulary corpus =
                (spec_emitted (L, R) config thr (\<lambda>w. dict_get vocabulary w 0)
                   (visits (read_documents tok corpus)), None, v'))"
proof (cases "map_of config ''lower_threshold''")
  case None
  from sentences_missing [OF None, of "(L, R)" "read_documents tok corpus" "[]" vocabulary]
  show ?thesis by (auto simp: None vocabularize_def)
next
  case (Some thr)
  have "\<forall>x \<in> set (visits (read_documents tok corpus)). fst (snd x) < length (fst x)"
    by (auto dest: visits_index)
  from fold_visits_spec [OF Some assms this, of L "[]" vocabulary]
  show ?thesis by (simp add: Some vocabularize_def sentences_visits)
qed

text \<open>
  A sentence whose third position is a group of two tokens, with window (1, 1),
  \<open>lower_threshold = 1\<close> and \<open>ordered\<close> on: a context token is kept once it has been
  counted twice, and both tokens of the group get the context of position 2.
\<close>

theorem emitted_contexts_are_window_witness:
  "(0::int) \<le> 1 \<and>
   (\<exists>v'. vocabularize example_tokenize (1, 1)
            [(''lower_threshold'', PInt 1), (''ordered'', PBool True)] []
            [Sentence [Tok ''a'', Tok ''b'', Ngram [''a'', ''c''], Tok ''a'']] =
          ([(''a'', []), (''b'', []), (''a'', [''a_1'']), (''c'', [''a_1'']), (''a'', [''a_1''])],
           None, v'))"
  using emitted_contexts_are_window
    [where R = 1 and L = 1 and tok = example_tokenize and vocabulary = "[]"
       and config = "[(''lower_threshold'', PInt 1), (''ordered'', PBool True)]"
       and corpus = "[Sentence [Tok ''a'', Tok ''b'', Ngram [''a'', ''c''], Tok ''a'']]"]
  by (simp add: visits_def read_documents_def spec_context_left_def
      spec_context_right_def tag_contexts_def tag_position_def dict_get_def eval_nat_numeral
      str_of_nat.simps Let_def)

text \<open>
  With \<open>lower_threshold = 0\<close> nothing is filtered or tagged: five positions, the third a
  group, window (1, 1).
\<close>

lemma unfiltered_example:
  "\<exists>v'. vocabularize example_tokenize (1, 1) [(''lower_threshold'', PInt 0)] []
            [Sentence [Tok ''a'', Tok ''b'', Ngram [''c'', ''d''], Tok ''e'', Tok ''f'']] =
          ([(''a'', [''b'']), (''b'', [''a'', ''c'', ''d'']), (''c'', [''b'', ''e'']),
            (''d'', [''b'', ''e'']), (''e'', [''c'', ''d'', ''f'']), (''f'', [''e''])],
           None, v')"
  using emitted_contexts_are_window
    [where R = 1 and L = 1 and tok = example_tokenize and vocabulary = "[]"
       and config = "[(''lower_threshold'', PInt 0)]"
       and corpus = "[Sentence [Tok ''a'', Tok ''b'', Ngram [''c'', ''d''], Tok ''e'',
                                Tok ''f'']]"]
  by (simp add: visits_def read_documents_def spec_context_left_def
      spec_context_right_def tag_contexts_def dict_get_def eval_nat_numeral Let_def)

section \<open>Threshold filtering\<close>

lemma delete_absent: "map_of d k = None \<Longrightarrow> AList.delete k d = d"
  by (induction d) auto

lemma delete_filter: "AList.delete k d = filter (\<lambda>(k', v). k' \<noteq> k) d"
  by (induction d) auto

lemma delete_if_contains:
  "(if dict_contains d k then AList.delete k d else d) = filter (\<lambda>(k', v). k' \<noteq> k) d"
  using delete_absent [of d k] by (auto simp: dict_contains_def delete_filter)

lemma remove_word_restrict: "remove_word w d = restrict (\<lambda>x. x \<noteq> w) d"
  by (simp add: remove_word_def restrict_def delete_if_contains)

lemma filter_keys_twice:
  "filter (\<lambda>(c, n). p c) (filter (\<lambda>(c, n). q c) b) = filter (\<lambda>(c, n). q c \<and> p c) b"
  by (induction b) auto

lemma restrict_restrict: "restrict p (restrict q d) = restrict (\<lambda>x. q x \<and> p x) d"
  by (induction d) (auto simp: restrict_def filter_keys_twice simp del: filter_filter)

lemma restrict_all: "restrict (\<lambda>x. True) d = d"
  by (induction d) (auto simp: restrict_def)

lemma listed_out_of_bounds_Cons:
  "listed_out_of_bounds config ((w, freq) # vocabulary) x =
     ((x = w \<and> \<not> in_bounds config freq) \<or> listed_out_of_bounds config vocabulary x)"
  by (auto simp: listed_out_of_bounds_def)

lemma filter_threshold_words_restrict_aux:
  "fold (\<lambda>(word, freq) d. if \<not> in_bounds config freq then remove_word word d else d)
        vocabulary (restrict p d) =
   restrict (\<lambda>x. p x \<and> \<not> listed_out_of_bounds config vocabulary x) d"
proof (induction vocabulary arbitrary: p)
  case Nil
  then show ?case by (simp add: listed_out_of_bounds_def)
next
  case (Cons a vocabulary)
  obtain w freq where a: "a = (w, freq)" by (cases a)
  show ?case
  proof (cases "in_bounds config freq")
    case True
    then show ?thesis by (simp add: a Cons.IH listed_out_of_bounds_Cons)
  next
    case False
    have "(\<lambda>x. (p x \<and> x \<noteq> w) \<and> \<not> listed_out_of_bounds config vocabulary x) =
          (\<lambda>x. p x \<and> \<not> listed_out_of_bounds config ((w, freq) # vocabulary) x)"
      using False by (auto simp: listed_out_of_bounds_Cons)
    with False show ?thesis
      by (simp add: a remove_word_restrict restrict_restrict Cons.IH)
  qed
qed

lemma filter_threshold_words_restrict:
  "filter_threshold_words config vocabulary d =
     restrict (\<lambda>x. \<not> listed_out_of_bounds config vocabulary x) d"
  using filter_threshold_words_restrict_aux [of config vocabulary "\<lambda>x. True" d]
  by (simp add: filter_threshold_words_def restrict_all)

lemma map_of_filter_key:
  "map_of (filter (\<lambda>(k, v). P k) xs) k = (if P k then map_of xs k else None)"
  by (induction xs) auto

lemma map_of_restrict:
  "map_of (restrict keep d) k =
     (if keep k then map_option (filter (\<lambda>(c, n). keep c)) (map_of d k) else None)"
  by (simp add: restrict_def map_of_map map_of_filter_key)

lemma set_restrict:
  "(key, inner) \<in> set (restrict keep d) \<Longrightarrow>
     keep key \<and> (\<exists>inner'. (key, inner') \<in> set d \<and> inner = filter (\<lambda>(c, n). keep c) inner')"
  by (auto simp: restrict_def)

lemma dict_contains_iff: "dict_contains d k \<longleftrightarrow> k \<in> fst ` set d"
  by (simp add: dict_contains_def map_of_eq_None_iff)

lemma listed_out_of_bounds_iff:
  "listed_out_of_bounds config vocabulary w \<longleftrightarrow>
     (\<exists>freq. (w, freq) \<in> set vocabulary \<and> \<not> in_bounds config freq)"
  by (auto simp: listed_out_of_bounds_def list_ex_iff)

lemma contains_dd_getitem:
  "dict_contains (snd (dd_getitem dflt d k)) k' = (k' = k \<or> dict_contains d k')"
  by (auto simp: dict_contains_def map_of_dd_getitem)

lemma contains_setitem:
  "dict_contains (dict_setitem d k v) k' = (k' = k \<or> dict_contains d k')"
  by (auto simp: dict_contains_def map_of_dict_setitem)

lemma contains_keep_frequent:
  "dict_contains v k \<Longrightarrow> dict_contains (snd (keep_frequent thr ws v)) k"
proof (induction ws arbitrary: v)
  case Nil
  then show ?case by simp
next
  case (Cons w ws)
  have "snd (keep_frequent thr (w # ws) v) =
          snd (keep_frequent thr ws (snd (dd_getitem 0 v w)))"
    by (simp add: case_prod_beta)
  moreover have "dict_contains (snd (dd_getitem 0 v w)) k"
    using Cons.prems by (simp add: contains_dd_getitem)
  ultimately show ?case using Cons.IH by simp
qed

lemma emit_focus_vocab:
  assumes "k = focus \<or> dict_contains v k"
  shows "dict_contains (snd (emit_focus ws config sentence i focus v)) k"
proof -
  define v1 where "v1 = dict_setitem (snd (dd_getitem 0 v focus)) focus
                          (fst (dd_getitem 0 v focus) + 1)"
  have v1: "dict_contains v1 k"
    using assms by (auto simp: v1_def contains_setitem contains_dd_getitem)
  show ?thesis
  proof (cases "dict_getitem config ''lower_threshold''")
    case (Inl e)
    then show ?thesis using v1 by (simp add: emit_focus_def case_prod_beta v1_def)
  next
    case (Inr thr)
    show ?thesis
    proof (cases "truthy thr")
      case False
      then show ?thesis using v1 Inr by (simp add: emit_focus_def case_prod_beta v1_def)
    next
      case True
      have "snd (emit_focus ws config sentence i focus v) =
              snd (keep_frequent (as_int thr) (window_right (snd ws) sentence i)
                (snd (keep_frequent (as_int thr) (window_left (fst ws) sentence i) v1)))"
        using True Inr by (simp add: emit_focus_def case_prod_beta v1_def Let_def)
      then show ?thesis using v1 by (simp add: contains_keep_frequent)
    qed
  qed
qed

lemma emit_focus_pair:
  "fst (emit_focus ws config sentence i focus v) = Inr p \<Longrightarrow> fst p = focus"
  by (cases "dict_getitem config ''lower_threshold''")
     (auto simp: emit_focus_def case_prod_beta Let_def)

lemma focus_step_foci_counted:
  assumes "foci_counted st"
  shows "foci_counted (focus_step ws config sentence i focus st)"
proof -
  obtain out raised v where st: "st = (out, raised, v)" by (cases st)
  show ?thesis
  proof (cases raised)
    case (Some e)
    with assms show ?thesis by (simp add: st focus_step_def)
  next
    case None
    obtain r v' where e: "emit_focus ws config sentence i focus v = (r, v')"
      by (cases "emit_focus ws config sentence i focus v")
    have k: "\<And>k. k = focus \<or> dict_contains v k \<Longrightarrow> dict_contains v' k"
      using emit_focus_vocab [of _ focus v ws config sentence i] e by simp
    from assms have out: "\<forall>p \<in> set out. dict_contains v (fst p)"
      by (simp add: st foci_counted_def)
    show ?thesis
    proof (cases r)
      case (Inl err)
      with out k show ?thesis by (simp add: st None focus_step_def e foci_counted_def)
    next
      case (Inr p)
      then have "fst p = focus" using emit_focus_pair [of ws config sentence i focus v p] e by simp
      with Inr out k show ?thesis by (simp add: st None focus_step_def e foci_counted_def)
    qed
  qed
qed

lemma fold_invariant:
  assumes "\<And>x st. I st \<Longrightarrow> I (step x st)" "I st"
  shows "I (fold step xs st)"
  using assms(2) by (induction xs arbitrary: st) (simp_all add: assms(1))

lemma sentence_step_foci_counted:
  assumes "foci_counted st"
  shows "foci_counted (sentence_step ws config sentence st)"
  unfolding sentence_step_def
proof (rule fold_invariant [where I = foci_counted, OF _ assms])
  fix x :: "nat \<times> word" and st :: gen_state
  assume I: "foci_counted st"
  obtain i w where x: "x = (i, w)" by (cases x)
  have "foci_counted (fold (focus_step ws config sentence i) (focuses_of w) st)"
    by (rule fold_invariant [where I = foci_counted, OF _ I]) (rule focus_step_foci_counted)
  then show "foci_counted ((case x of (i, focuses) \<Rightarrow>
      fold (focus_step ws config sentence i) (focuses_of focuses)) st)"
    by (simp add: x)
qed

lemma vocabularize_foci_counted:
  "foci_counted (vocabularize tok ws config vocabulary corpus)"
  unfolding vocabularize_def
proof (rule fold_invariant [where I = foci_counted])
  show "foci_counted ([], None, vocabulary)" by (simp add: foci_counted_def)
qed (rule sentence_step_foci_counted)

lemma contains_incr_count:
  "dict_contains (incr_count c f a) k = (k = f \<or> dict_contains c k)"
  by (simp add: incr_count_def case_prod_beta contains_setitem contains_dd_getitem)

lemma contains_count_contexts:
  "dict_contains (fold (\<lambda>context c'. incr_count c' f context) cs c) k \<Longrightarrow>
     k = f \<or> dict_contains c k"
proof (induction cs arbitrary: c)
  case Nil
  then show ?case by simp
next
  case (Cons a cs)
  from Cons.prems have
    "dict_contains (fold (\<lambda>context c'. incr_count c' f context) cs (incr_count c f a)) k"
    by simp
  from Cons.IH [OF this] show ?case by (auto simp: contains_incr_count)
qed

lemma contains_count_pairs:
  "dict_contains (count_pairs pairs c) k \<Longrightarrow> k \<in> fst ` set pairs \<or> dict_contains c k"
proof (induction pairs arbitrary: c)
  case Nil
  then show ?case by (simp add: count_pairs_def)
next
  case (Cons p pairs)
  obtain f cs where p: "p = (f, cs)" by (cases p)
  from Cons.prems have
    "dict_contains (count_pairs pairs (fold (\<lambda>context c'. incr_count c' f context) cs c)) k"
    by (simp add: count_pairs_def p)
  from Cons.IH [OF this] contains_count_contexts [of f cs c k]
  show ?case by (auto simp: p)
qed

lemma cooccurrence_rows:
  assumes "build_matrix env CooccurrenceDSM ws config vocabulary corpus g = Inr (m, vocabulary', g')"
  shows "set (row_labels m) \<subseteq> {w. \<exists>freq. (w, freq) \<in> set vocabulary' \<and> in_bounds config freq}"
proof -
  obtain out raised v where
    voc: "vocabularize (tokenize env) ws config vocabulary corpus = (out, raised, v)"
    by (cases "vocabularize (tokenize env) ws config vocabulary corpus")
  from assms voc have r: "raised = None"
    by (cases raised) (simp_all add: build_matrix_def CooccurrenceDSM_build_def)
  from assms voc r have
    m: "m = IndexMatrix_dict (filter_threshold_words config v (count_pairs out []))"
    and v: "vocabulary' = v"
    by (auto simp: build_matrix_def CooccurrenceDSM_build_def)
  have counted: "\<forall>p \<in> set out. dict_contains v (fst p)"
    using vocabularize_foci_counted [of "tokenize env" ws config vocabulary corpus] voc
    by (simp add: foci_counted_def)
  show ?thesis
  proof
    fix w assume "w \<in> set (row_labels m)"
    then have "dict_contains (restrict (\<lambda>x. \<not> listed_out_of_bounds config v x) (count_pairs out [])) w"
      by (simp add: m row_labels_def filter_threshold_words_restrict dict_contains_iff)
    then have w: "dict_contains (count_pairs out []) w" "\<not> listed_out_of_bounds config v w"
      by (auto simp: dict_contains_def map_of_restrict split: if_splits)
    from contains_count_pairs [OF w(1)] have "w \<in> fst ` set out"
      by (simp add: dict_contains_def)
    with counted have "dict_contains v w" by auto
    then obtain freq where f: "(w, freq) \<in> set v" by (auto simp: dict_contains_iff)
    with w(2) have "in_bounds config freq" by (auto simp: listed_out_of_bounds_iff)
    with f show "w \<in> {w. \<exists>freq. (w, freq) \<in> set vocabulary' \<and> in_bounds config freq}"
      by (auto simp: v)
  qed
qed

text \<open>
  Claim C5, amended. The filtering step removes every token that the vocabulary lists
  with a frequency outside \<open>[lower_threshold, higher_threshold]\<close> (defaults 0 and
  infinity), as a row and from every remaining row. The rows and entries of all other
  keys are as before: those that the vocabulary lists with a frequency within the bounds,
  and those that it does not list at all, since the step runs over the vocabulary's items
  and never reads a default frequency. Consequently the row labels of the matrix of a
  co-occurrence build, which are all listed, are keys of the vocabulary with a frequency
  within the bounds.
\<close>

theorem threshold_filter:
  "(listed_out_of_bounds config vocabulary w \<longrightarrow>
      \<not> dict_contains (filter_threshold_words config vocabulary colloc_dict) w \<and>
      (\<forall>key inner. (key, inner) \<in> set (filter_threshold_words config vocabulary colloc_dict)
         \<longrightarrow> \<not> dict_contains inner w)) \<and>
   (\<not> listed_out_of_bounds config vocabulary k \<longrightarrow>
      dict_contains (filter_threshold_words config vocabulary colloc_dict) k =
        dict_contains colloc_dict k \<and>
      (\<not> listed_out_of_bounds config vocabulary c \<longrightarrow>
         map_of (dict_get (filter_threshold_words config vocabulary colloc_dict) k []) c =
         map_of (dict_get colloc_dict k []) c)) \<and>
   (build_matrix env CooccurrenceDSM ws config vocabulary0 corpus g = Inr (m, vocabulary', g') \<longrightarrow>
      set (row_labels m) \<subseteq>
        {x. \<exists>freq. (x, freq) \<in> set vocabulary' \<and> in_bounds config freq})"
proof (intro conjI impI allI)
  assume "listed_out_of_bounds config vocabulary w"
  then show "\<not> dict_contains (filter_threshold_words config vocabulary colloc_dict) w"
    by (simp add: dict_contains_def filter_threshold_words_restrict map_of_restrict)
next
  fix key inner
  assume w: "listed_out_of_bounds config vocabulary w"
    and "(key, inner) \<in> set (filter_threshold_words config vocabulary colloc_dict)"
  then obtain inner' where
    "inner = filter (\<lambda>(c, n). \<not> listed_out_of_bounds config vocabulary c) inner'"
    using set_restrict [of key inner "\<lambda>x. \<not> listed_out_of_bounds config vocabulary x" colloc_dict]
    by (auto simp: filter_threshold_words_restrict)
  with w show "\<not> dict_contains inner w"
    by (simp add: dict_contains_def map_of_filter_key)
next
  assume "\<not> listed_out_of_bounds config vocabulary k"
  then show "dict_contains (filter_threshold_words config vocabulary colloc_dict) k =
        dict_contains colloc_dict k"
    by (simp add: dict_contains_def filter_threshold_words_restrict map_of_restrict)
next
  assume "\<not> listed_out_of_bounds config vocabulary k" "\<not> listed_out_of_bounds config vocabulary c"
  then show "map_of (dict_get (filter_threshold_words config vocabulary colloc_dict) k []) c =
         map_of (dict_get colloc_dict k []) c"
    by (cases "map_of colloc_dict k")
      (simp_all add: dict_get_def filter_threshold_words_restrict map_of_restrict
        map_of_filter_key)
next
  assume "build_matrix env CooccurrenceDSM ws config vocabulary0 corpus g = Inr (m, vocabulary', g')"
  then show "set (row_labels m) \<subseteq>
        {x. \<exists>freq. (x, freq) \<in> set vocabulary' \<and> in_bounds config freq}"
    by (rule cooccurrence_rows)
qed

lemmas eval_defs =
  vocabularize_def read_documents_def sentence_step_def focus_step_def emit_focus_def
  window_left_def window_right_def py_slice_def dd_getitem_def dict_setitem_def
  dict_getitem_def dict_get_def tag_contexts_def Let_def

lemma w_voc:
  "vocabularize example_tokenize (1, 1) [(''lower_threshold'', PInt 2)] []
      [Sentence [Tok ''a'', Tok ''b''], Sentence [Tok ''a'', Tok ''c''],
       Sentence [Tok ''a'', Tok ''b'']]
    = ([(''a'', []), (''b'', []), (''a'', []), (''c'', []), (''a'', []), (''b'', [''a''])],
       None, [(''a'', 3), (''b'', 2), (''c'', 1)])"
  by (simp add: eval_defs)

text \<open>
  Three sentences with \<open>lower_threshold = 2\<close>: \<open>c\<close> occurs once and is removed, the
  built matrix has the single row \<open>b\<close>.
\<close>

theorem threshold_filter_witness:
  "listed_out_of_bounds [(''lower_threshold'', PInt 2)] [(''a'', 3), (''b'', 2), (''c'', 1)] ''c'' \<and>
   \<not> listed_out_of_bounds [(''lower_threshold'', PInt 2)] [(''a'', 3), (''b'', 2), (''c'', 1)] ''a'' \<and>
   \<not> listed_out_of_bounds [(''lower_threshold'', PInt 2)] [(''a'', 3), (''b'', 2), (''c'', 1)] ''b'' \<and>
   filter_threshold_words [(''lower_threshold'', PInt 2)] [(''a'', 3), (''b'', 2), (''c'', 1)]
     [(''a'', [(''b'', 2), (''c'', 1)]), (''b'', [(''a'', 2)]), (''c'', [(''a'', 1)])]
     = [(''a'', [(''b'', 2)]), (''b'', [(''a'', 2)])] \<and>
   \<not> dict_contains [(''a'', [(''b'', 2 :: int)]), (''b'', [(''a'', 2)])] ''c'' \<and>
   map_of (dict_get [(''a'', [(''b'', 2 :: int)]), (''b'', [(''a'', 2)])] ''a'' []) ''b'' = Some 2 \<and>
   build_matrix example_env CooccurrenceDSM (1, 1) [(''lower_threshold'', PInt 2)] []
      [Sentence [Tok ''a'', Tok ''b''], Sentence [Tok ''a'', Tok ''c''],
       Sentence [Tok ''a'', Tok ''b'']] 0
     = Inr (IndexMatrix_dict [(''b'', [(''a'', 1)])], [(''a'', 3), (''b'', 2), (''c'', 1)], 0) \<and>
   set (row_labels (IndexMatrix_dict [(''b'', [(''a'', 1)])])) \<subseteq>
     {x. \<exists>freq. (x, freq) \<in> set [(''a'', 3), (''b'', 2), (''c'', 1)] \<and>
                 in_bounds [(''lower_threshold'', PInt 2)] freq}"
proof -
  have f: "filter_threshold_words [(''lower_threshold'', PInt 2)] [(''a'', 3), (''b'', 2), (''c'', 1)]
     [(''a'', [(''b'', 2), (''c'', 1)]), (''b'', [(''a'', 2)]), (''c'', [(''a'', 1)])]
     = [(''a'', [(''b'', 2)]), (''b'', [(''a'', 2)])]"
    by (simp add: filter_threshold_words_def in_bounds_def remove_word_def dict_contains_def
        dict_get_def)
  have b: "build_matrix example_env CooccurrenceDSM (1, 1) [(''lower_threshold'', PInt 2)] []
      [Sentence [Tok ''a'', Tok ''b''], Sentence [Tok ''a'', Tok ''c''],
       Sentence [Tok ''a'', Tok ''b'']] (0::nat)
     = Inr (IndexMatrix_dict [(''b'', [(''a'', 1)])], [(''a'', 3), (''b'', 2), (''c'', 1)], 0)"
    by (simp add: build_matrix_def example_env_def w_voc CooccurrenceDSM_build_def
        count_pairs_def incr_count_def dd_getitem_def dict_setitem_def
        filter_threshold_words_def in_bounds_def remove_word_def dict_contains_def dict_get_def)
  have o: "listed_out_of_bounds [(''lower_threshold'', PInt 2)] [(''a'', 3), (''b'', 2), (''c'', 1)] ''c''"
    "\<not> listed_out_of_bounds [(''lower_threshold'', PInt 2)] [(''a'', 3), (''b'', 2), (''c'', 1)] ''a''"
    "\<not> listed_out_of_bounds [(''lower_threshold'', PInt 2)] [(''a'', 3), (''b'', 2), (''c'', 1)] ''b''"
    by (simp_all add: listed_out_of_bounds_def in_bounds_def dict_get_def)
  from threshold_filter
    [where config = "[(''lower_threshold'', PInt 2)]"
       and vocabulary = "[(''a'', 3), (''b'', 2), (''c'', 1)]"
       and colloc_dict = "[(''a'', [(''b'', 2), (''c'', 1)]), (''b'', [(''a'', 2)]), (''c'', [(''a'', 1)])]"
       and w = "''c''" and k = "''a''" and c = "''b''"
       and env = example_env and ws = "(1, 1)" and ?vocabulary0.0 = "[]"
       and corpus = "[Sentence [Tok ''a'', Tok ''b''], Sentence [Tok ''a'', Tok ''c''],
                      Sentence [Tok ''a'', Tok ''b'']]"
       and g = 0 and m = "IndexMatrix_dict [(''b'', [(''a'', 1)])]"
       and vocabulary' = "[(''a'', 3), (''b'', 2), (''c'', 1)]" and g' = 0]
  show ?thesis
    using o b by (simp add: f dict_contains_def dict_get_def)
qed

text \<open>
  The claim as stated goes by the vocabulary frequency of a key, which is 0 for a key
  that the vocabulary does not list. With \<open>lower_threshold = 2\<close> and an empty vocabulary
  the frequency 0 of \<open>x\<close> and of \<open>y\<close> is below the bounds, yet the step removes neither.
\<close>

theorem threshold_filter_unlisted_counterexample:
  "\<not> in_bounds [(''lower_threshold'', PInt 2)] (dict_get ([] :: vocab) ''x'' 0) \<and>
   \<not> in_bounds [(''lower_threshold'', PInt 2)] (dict_get ([] :: vocab) ''y'' 0) \<and>
   filter_threshold_words [(''lower_threshold'', PInt 2)] [] [(''x'', [(''y'', 1)])]
     = [(''x'', [(''y'', 1)])] \<and>
   dict_contains
     (filter_threshold_words [(''lower_threshold'', PInt 2)] [] [(''x'', [(''y'', 1)])]) ''x''"
  by (simp add: filter_threshold_words_def in_bounds_def dict_get_def dict_contains_def)

section \<open>The random-indexing build\<close>

lemma index_vector_indep:
  "(\<forall>e. index_vector env config indices context (w2c, g1) = Inl e \<longrightarrow>
        index_vector env config indices context (w2c, g2) = Inl e) \<and>
   (\<forall>v w g1'. index_vector env config indices context (w2c, g1) = Inr (v, w, g1') \<longrightarrow>
        (\<exists>g2'. index_vector env config indices context (w2c, g2) = Inr (v, w, g2')))"
  by (auto simp: index_vector_def Let_def split: option.splits sum.splits)

lemma context_indices_indep:
  "(\<forall>e. context_indices env config indices contexts (pos, neg, w2c, g1) = Inl e \<longrightarrow>
        context_indices env config indices contexts (pos, neg, w2c, g2) = Inl e) \<and>
   (\<forall>p n w g1'. context_indices env config indices contexts (pos, neg, w2c, g1)
          = Inr (p, n, w, g1') \<longrightarrow>
        (\<exists>g2'. context_indices env config indices contexts (pos, neg, w2c, g2)
          = Inr (p, n, w, g2')))"
proof (induction contexts arbitrary: pos neg w2c g1 g2)
  case Nil
  then show ?case by simp
next
  case (Cons ctx contexts)
  show ?case
  proof (cases "index_vector env config indices ctx (w2c, g1)")
    case (Inl e)
    with index_vector_indep [of env config indices ctx w2c g1 g2]
    have "index_vector env config indices ctx (w2c, g2) = Inl e" by blast
    with Inl show ?thesis by simp
  next
    case (Inr r)
    obtain v w g1' where r: "r = (v, w, g1')" by (cases r)
    with Inr index_vector_indep [of env config indices ctx w2c g1 g2]
    obtain g2' where "index_vector env config indices ctx (w2c, g2) = Inr (v, w, g2')"
      by blast
    with Inr r Cons.IH [of "pos @ [pos_half v]" "neg @ [neg_half v]" w g1' g2']
    show ?thesis by simp
  qed
qed

lemma accumulate_pair_indep:
  "(\<forall>e. accumulate_pair env config dim indices pair (colfreqs, w2c, g1) = Inl e \<longrightarrow>
        accumulate_pair env config dim indices pair (colfreqs, w2c, g2) = Inl e) \<and>
   (\<forall>c w g1'. accumulate_pair env config dim indices pair (colfreqs, w2c, g1)
          = Inr (c, w, g1') \<longrightarrow>
        (\<exists>g2'. accumulate_pair env config dim indices pair (colfreqs, w2c, g2)
          = Inr (c, w, g2')))"
proof -
  obtain focus contexts where pair: "pair = (focus, contexts)" by (cases pair)
  show ?thesis
  proof (cases "context_indices env config indices contexts ([], [], w2c, g1)")
    case (Inl e)
    with context_indices_indep [of env config indices contexts "[]" "[]" w2c g1 g2]
    have "context_indices env config indices contexts ([], [], w2c, g2) = Inl e" by blast
    with Inl show ?thesis by (simp add: accumulate_pair_def pair split: sum.splits)
  next
    case (Inr r)
    obtain p n w g1' where r: "r = (p, n, w, g1')" by (cases r)
    with Inr context_indices_indep [of env config indices contexts "[]" "[]" w2c g1 g2]
    obtain g2' where
      "context_indices env config indices contexts ([], [], w2c, g2) = Inr (p, n, w, g2')"
      by blast
    with Inr r show ?thesis
      by (simp add: accumulate_pair_def pair split: sum.splits)
  qed
qed

lemma accumulate_indep:
  "(\<forall>e. accumulate env config dim indices pairs (colfreqs, w2c, g1) = Inl e \<longrightarrow>
        accumulate env config dim indices pairs (colfreqs, w2c, g2) = Inl e) \<and>
   (\<forall>c w g1'. accumulate env config dim indices pairs (colfreqs, w2c, g1)
          = Inr (c, w, g1') \<longrightarrow>
        (\<exists>g2'. accumulate env config dim indices pairs (colfreqs, w2c, g2)
          = Inr (c, w, g2')))"
proof (induction pairs arbitrary: colfreqs w2c g1 g2)
  case Nil
  then show ?case by simp
next
  case (Cons pair pairs)
  show ?case
  proof (cases "accumulate_pair env config dim indices pair (colfreqs, w2c, g1)")
    case (Inl e)
    with accumulate_pair_indep [of env config dim indices pair colfreqs w2c g1 g2]
    have "accumulate_pair env config dim indices pair (colfreqs, w2c, g2) = Inl e" by blast
    with Inl show ?thesis by simp
  next
    case (Inr r)
    obtain c w g1' where r: "r = (c, w, g1')" by (cases r)
    with Inr accumulate_pair_indep [of env config dim indices pair colfreqs w2c g1 g2]
    obtain g2' where
      "accumulate_pair env config dim indices pair (colfreqs, w2c, g2) = Inr (c, w, g2')"
      by blast
    with Inr r Cons.IH [of c w g1' g2'] show ?thesis by simp
  qed
qed

text \<open>
  Claim C9. The build is a function of the environment (tokenizer, hash, seeding and
  drawing), the configuration and the pairs alone: since the generator is reseeded from
  the token's hash before every draw, its outcome, an exception or the triple of values,
  row labels and column labels, does not depend on the state in which the global random
  generator is found. Two runs on the same inputs give the same matrix.
\<close>

theorem build_independent_of_generator_state:
  "map_sum id fst (RandomIndexing_build env config g1 text) =
   map_sum id fst (RandomIndexing_build env config g2 text)"
proof (cases "dict_getitem config ''dimensionality''")
  case (Inl e)
  then show ?thesis by (simp add: RandomIndexing_build_def)
next
  case (Inr d)
  show ?thesis
  proof (cases "accumulate env config (as_int d) (np_arange (as_int d)) (fst text) ([], [], g1)")
    case (Inl e)
    with accumulate_indep [of env config "as_int d" "np_arange (as_int d)" "fst text" "[]" "[]" g1 g2]
    have "accumulate env config (as_int d) (np_arange (as_int d)) (fst text) ([], [], g2) = Inl e"
      by blast
    with Inl Inr show ?thesis by (simp add: RandomIndexing_build_def)
  next
    case r: (Inr r)
    obtain c w g1' where "r = (c, w, g1')" by (cases r)
    with r accumulate_indep [of env config "as_int d" "np_arange (as_int d)" "fst text" "[]" "[]" g1 g2]
    obtain g2' where
      "accumulate env config (as_int d) (np_arange (as_int d)) (fst text) ([], [], g2) = Inr (c, w, g2')"
      by blast
    with r \<open>r = (c, w, g1')\<close> Inr show ?thesis
      by (simp add: RandomIndexing_build_def split: option.splits)
  qed
qed

lemma contains_count_contexts_iff:
  "dict_contains (fold (\<lambda>context c'. incr_count c' f context) cs c) k \<longleftrightarrow>
     dict_contains c k \<or> (k = f \<and> cs \<noteq> [])"
  by (induction cs arbitrary: c) (auto simp: contains_incr_count)

lemma contains_count_pairs_iff:
  "dict_contains (count_pairs pairs c) k \<longleftrightarrow>
     dict_contains c k \<or> (\<exists>cs. (k, cs) \<in> set pairs \<and> cs \<noteq> [])"
proof (induction pairs arbitrary: c)
  case Nil
  then show ?case by (simp add: count_pairs_def)
next
  case (Cons p pairs)
  obtain f cs where p: "p = (f, cs)" by (cases p)
  have "count_pairs (p # pairs) c =
          count_pairs pairs (fold (\<lambda>context c'. incr_count c' f context) cs c)"
    by (simp add: count_pairs_def p)
  then show ?case
    by (auto simp: Cons.IH contains_count_contexts_iff p)
qed

lemma accumulate_pair_zero_row:
  assumes "accumulate_pair env config dim indices (f', cs) (colfreqs, w2c, g) = Inr (colfreqs', w2c', g')"
    and "f' = f \<longrightarrow> cs = []"
    and "zero_row_kept dim f colfreqs"
  shows "zero_row_kept dim f colfreqs' \<and> dict_contains colfreqs' f' \<and>
         (dict_contains colfreqs f \<longrightarrow> dict_contains colfreqs' f)"
proof (cases "f' = f")
  case True
  with assms(2) have cs: "cs = []" by simp
  show ?thesis
  proof (cases "map_of colfreqs f")
    case None
    with assms(1) True cs have "dim \<ge> 0" "colfreqs' = dict_setitem colfreqs f (replicate (nat dim) 0)"
      by (auto simp: accumulate_pair_def np_zeros_def split: if_splits)
    then show ?thesis
      by (simp add: zero_row_kept_def map_of_dict_setitem True contains_setitem)
  next
    case (Some row)
    with assms(1) True cs have "colfreqs' = dict_setitem colfreqs f row"
      by (auto simp: accumulate_pair_def)
    with Some assms(3) show ?thesis
      by (simp add: zero_row_kept_def map_of_dict_setitem True contains_setitem)
  qed
next
  case False
  from assms(1) obtain row where "colfreqs' = dict_setitem colfreqs f' row"
    by (auto simp: accumulate_pair_def split: sum.splits if_splits option.splits)
  with False assms(3) show ?thesis
    by (auto simp: zero_row_kept_def map_of_dict_setitem contains_setitem)
qed

lemma accumulate_zero_row:
  assumes "accumulate env config dim indices pairs (colfreqs, w2c, g) = Inr (colfreqs', w2c', g')"
    and "\<forall>cs. (f, cs) \<in> set pairs \<longrightarrow> cs = []"
    and "zero_row_kept dim f colfreqs"
  shows "zero_row_kept dim f colfreqs' \<and>
         (dict_contains colfreqs f \<or> f \<in> fst ` set pairs \<longrightarrow> dict_contains colfreqs' f)"
  using assms
proof (induction pairs arbitrary: colfreqs w2c g)
  case Nil
  then show ?case by simp
next
  case (Cons p pairs)
  obtain f' cs where p: "p = (f', cs)" by (cases p)
  from Cons.prems(1) obtain c1 w1 g1 where
    s: "accumulate_pair env config dim indices (f', cs) (colfreqs, w2c, g) = Inr (c1, w1, g1)"
    and r: "accumulate env config dim indices pairs (c1, w1, g1) = Inr (colfreqs', w2c', g')"
    by (cases "accumulate_pair env config dim indices (f', cs) (colfreqs, w2c, g)")
       (auto simp: p)
  from Cons.prems(2) have e: "f' = f \<longrightarrow> cs = []" by (auto simp: p)
  from accumulate_pair_zero_row [OF s e Cons.prems(3)] have
    k: "zero_row_kept dim f c1" "dict_contains c1 f'"
       "dict_contains colfreqs f \<longrightarrow> dict_contains c1 f"
    by simp_all
  from Cons.prems(2) have "\<forall>cs. (f, cs) \<in> set pairs \<longrightarrow> cs = []" by simp
  from Cons.IH [OF r this k(1)] k(2,3) show ?case
    by (auto simp: p)
qed

lemma zero_row_if_built:
  assumes "\<forall>cs. (focus, cs) \<in> set pairs \<longrightarrow> cs = []"
    and "focus \<in> fst ` set pairs"
    and "map_of config ''dimensionality'' = Some d"
    and "RandomIndexing_build env config g (pairs, None) = Inr ((values, rows, cols), g')"
    and "CooccurrenceDSM_build (pairs, None) = Inr colloc_dict"
  shows "(focus, replicate (nat (as_int d)) 0) \<in> set (zip rows values) \<and>
         \<not> dict_contains colloc_dict focus"
proof -
  from assms(3,4) obtain colfreqs w2c where
    acc: "accumulate env config (as_int d) (np_arange (as_int d)) pairs ([], [], g)
            = Inr (colfreqs, w2c, g')"
    and res: "values = map snd colfreqs" "rows = map fst colfreqs"
    by (auto simp: RandomIndexing_build_def dict_getitem_def Let_def split: sum.splits if_splits)
  have "zero_row_kept (as_int d) focus []" by (simp add: zero_row_kept_def)
  from accumulate_zero_row [OF acc assms(1) this] assms(2) have
    "zero_row_kept (as_int d) focus colfreqs" "dict_contains colfreqs focus" by simp_all
  then have "map_of colfreqs focus = Some (replicate (nat (as_int d)) 0)"
    by (auto simp: zero_row_kept_def dict_contains_def)
  then have "(focus, replicate (nat (as_int d)) 0) \<in> set colfreqs" by (rule map_of_SomeD)
  moreover have "zip rows values = colfreqs" by (simp add: res zip_map_fst_snd)
  moreover have "\<not> dict_contains colloc_dict focus"
  proof -
    from assms(5) have "colloc_dict = count_pairs pairs []"
      by (simp add: CooccurrenceDSM_build_def)
    moreover have "\<not> dict_contains ([] :: colloc) focus" by (simp add: dict_contains_def)
    ultimately show ?thesis using assms(1) by (auto simp: contains_count_pairs_iff)
  qed
  ultimately show ?thesis by simp
qed

lemma np_add_at_ok:
  assumes "\<forall>i \<in> set idx. i < length a"
  shows "\<exists>a'. np_add_at a idx c = Inr a' \<and> length a' = length a"
  using assms
proof (induction idx arbitrary: a)
  case Nil
  then show ?case by simp
next
  case (Cons i idx)
  then have "\<forall>j \<in> set idx. j < length (a[i := a ! i + c])" by simp
  from Cons.IH [OF this] Cons.prems show ?case by simp
qed

lemma index_vector_ok:
  assumes "choice_ok env" "map_of config ''num_indices'' = Some n" "0 \<le> as_int n"
    "0 < dim" "cache_ok dim w2c"
  shows "\<exists>v w2c' g'. index_vector env config [0..<dim] ctx (w2c, g) = Inr (v, w2c', g') \<and>
           cache_ok dim w2c' \<and> (\<forall>i \<in> set v. i < dim)"
proof (cases "map_of w2c ctx")
  case (Some v)
  with assms(5) show ?thesis by (auto simp: index_vector_def cache_ok_def)
next
  case None
  have ne: "[0..<dim] \<noteq> []" using assms(4) by simp
  from assms(1) have "\<exists>v g'.
      np_random_choice env (np_random_seed env (hash env ctx mod 4294967295)) [0..<dim] (as_int n)
        = Some (v, g') \<and> length v = nat (as_int n) \<and> set v \<subseteq> set [0..<dim]"
    unfolding choice_ok_def using ne assms(3) by blast
  then obtain v g' where
    c: "np_random_choice env (np_random_seed env (hash env ctx mod 4294967295)) [0..<dim] (as_int n)
          = Some (v, g')" and v: "set v \<subseteq> set [0..<dim]"
    by blast
  from v have r: "\<forall>i \<in> set v. i < dim" by auto
  have "index_vector env config [0..<dim] ctx (w2c, g) = Inr (v, dict_setitem w2c ctx v, g')"
    using None c assms(2) by (simp add: index_vector_def dict_getitem_def)
  moreover have "cache_ok dim (dict_setitem w2c ctx v)"
    using assms(5) r by (auto simp: cache_ok_def map_of_dict_setitem)
  ultimately show ?thesis using r by blast
qed

lemma context_indices_ok:
  assumes "choice_ok env" "map_of config ''num_indices'' = Some n" "0 \<le> as_int n"
    "0 < dim"
  shows "cache_ok dim w2c \<Longrightarrow> \<forall>i \<in> set (concat pos). i < dim \<Longrightarrow>
         \<forall>i \<in> set (concat neg). i < dim \<Longrightarrow>
         \<exists>pos' neg' w2c' g'.
           context_indices env config [0..<dim] contexts (pos, neg, w2c, g)
             = Inr (pos', neg', w2c', g') \<and>
           cache_ok dim w2c' \<and> (\<forall>i \<in> set (concat pos'). i < dim) \<and>
           (\<forall>i \<in> set (concat neg'). i < dim)"
proof (induction contexts arbitrary: pos neg w2c g)
  case Nil
  then show ?case by simp
next
  case (Cons ctx contexts)
  from index_vector_ok [OF assms Cons.prems(1), of ctx g] obtain v w2c1 g1 where
    iv: "index_vector env config [0..<dim] ctx (w2c, g) = Inr (v, w2c1, g1)"
    and c1: "cache_ok dim w2c1" and v: "\<forall>i \<in> set v. i < dim"
    by blast
  have p: "\<forall>i \<in> set (concat (pos @ [pos_half v])). i < dim"
    using Cons.prems(2) v by (auto simp: pos_half_def dest: in_set_takeD)
  have n: "\<forall>i \<in> set (concat (neg @ [neg_half v])). i < dim"
    using Cons.prems(3) v by (auto simp: neg_half_def dest: in_set_dropD)
  from Cons.IH [OF c1 p n, of g1] iv show ?case by simp
qed

lemma accumulate_pair_ok:
  assumes "choice_ok env" "map_of config ''num_indices'' = Some n" "0 \<le> as_int n"
    "0 < dim" "cache_ok dim w2c" "rows_ok dim colfreqs"
  shows "\<exists>colfreqs' w2c' g'.
           accumulate_pair env config (int dim) [0..<dim] pair (colfreqs, w2c, g)
             = Inr (colfreqs', w2c', g') \<and>
           cache_ok dim w2c' \<and> rows_ok dim colfreqs' \<and> colfreqs' \<noteq> []"
proof -
  obtain focus contexts where pair: "pair = (focus, contexts)" by (cases pair)
  obtain row where row: "(case map_of colfreqs focus of Some row \<Rightarrow> Inr row
                            | None \<Rightarrow> np_zeros (int dim)) = Inr row" "length row = dim"
    using assms(6) by (cases "map_of colfreqs focus") (auto simp: np_zeros_def rows_ok_def)
  from context_indices_ok [OF assms(1-4) assms(5), of "[]" "[]" contexts g]
  obtain pos neg w2c' g' where
    ci: "context_indices env config [0..<dim] contexts ([], [], w2c, g) = Inr (pos, neg, w2c', g')"
    and c: "cache_ok dim w2c'" and p: "\<forall>i \<in> set (concat pos). i < dim"
    and n: "\<forall>i \<in> set (concat neg). i < dim"
    by auto
  from np_add_at_ok [of "concat pos" row 1] p row(2) obtain row1 where
    r1: "(if pos \<noteq> [] then np_add_at row (concat pos) 1 else Inr row) = Inr row1"
        "length row1 = dim"
    by (cases "pos = []") auto
  from np_add_at_ok [of "concat neg" row1 "- 1"] n r1(2) obtain row2 where
    r2: "(if neg \<noteq> [] then np_add_at row1 (concat neg) (- 1) else Inr row1) = Inr row2"
        "length row2 = dim"
    by (cases "neg = []") auto
  have "accumulate_pair env config (int dim) [0..<dim] pair (colfreqs, w2c, g)
          = Inr (dict_setitem colfreqs focus row2, w2c', g')"
    by (simp add: accumulate_pair_def pair row(1) ci r1(1) r2(1))
  moreover have "rows_ok dim (dict_setitem colfreqs focus row2)"
    using assms(6) r2(2) by (auto simp: rows_ok_def map_of_dict_setitem)
  moreover have "dict_setitem colfreqs focus row2 \<noteq> []"
    by (cases colfreqs) (auto simp: dict_setitem_def)
  ultimately show ?thesis using c by blast
qed

lemma accumulate_ok:
  assumes "choice_ok env" "map_of config ''num_indices'' = Some n" "0 \<le> as_int n"
    "0 < dim"
  shows "cache_ok dim w2c \<Longrightarrow> rows_ok dim colfreqs \<Longrightarrow>
         \<exists>colfreqs' w2c' g'.
           accumulate env config (int dim) [0..<dim] pairs (colfreqs, w2c, g)
             = Inr (colfreqs', w2c', g') \<and> (pairs \<noteq> [] \<longrightarrow> colfreqs' \<noteq> [])"
proof (induction pairs arbitrary: colfreqs w2c g)
  case Nil
  then show ?case by simp
next
  case (Cons pair pairs)
  from accumulate_pair_ok [OF assms Cons.prems, of pair g] obtain c1 w1 g1 where
    s: "accumulate_pair env config (int dim) [0..<dim] pair (colfreqs, w2c, g) = Inr (c1, w1, g1)"
    and i: "cache_ok dim w1" "rows_ok dim c1" "c1 \<noteq> []"
    by blast
  from Cons.IH [OF i(1,2), of g1] obtain c2 w2 g2 where
    r: "accumulate env config (int dim) [0..<dim] pairs (c1, w1, g1) = Inr (c2, w2, g2)"
    and ne: "pairs \<noteq> [] \<longrightarrow> c2 \<noteq> []"
    by blast
  have "c2 \<noteq> []"
  proof (cases pairs)
    case Nil
    with r i(3) show ?thesis by simp
  next
    case (Cons a list)
    with ne show ?thesis by simp
  qed
  with s r show ?case by simp
qed

lemma RandomIndexing_build_returns:
  assumes "choice_ok env" "map_of config ''num_indices'' = Some n" "0 \<le> as_int n"
    "map_of config ''dimensionality'' = Some d" "0 < as_int d" "pairs \<noteq> []"
  shows "\<exists>values rows cols g'.
           RandomIndexing_build env config g (pairs, None) = Inr ((values, rows, cols), g')"
proof -
  define dim where "dim = nat (as_int d)"
  have d: "int dim = as_int d" "0 < dim" using assms(5) by (simp_all add: dim_def)
  have "cache_ok dim []" "rows_ok dim []" by (simp_all add: cache_ok_def rows_ok_def)
  from accumulate_ok [OF assms(1-3) d(2) this, of pairs g] assms(6)
  obtain c w g' where
    "accumulate env config (int dim) [0..<dim] pairs ([], [], g) = Inr (c, w, g')" "c \<noteq> []"
    by blast
  then have "accumulate env config (as_int d) [0..<nat (as_int d)] pairs ([], [], g) = Inr (c, w, g')"
    by (simp add: d(1) dim_def [symmetric])
  with \<open>c \<noteq> []\<close> show ?thesis
    using assms(4) by (simp add: RandomIndexing_build_def dict_getitem_def np_arange_def)
qed







lemma example_env_ok: "choice_ok example_env"
  by (auto simp: choice_ok_def example_env_def example_choice_def)

lemmas ri_eval_defs =
  RandomIndexing_build_def dict_getitem_def np_arange_def accumulate_pair_def
  index_vector_def example_env_def example_choice_def example_hash_def np_zeros_def
  pos_half_def neg_half_def dict_setitem_def Let_def

lemma upt_small: "[0..<2] = [0, 1]" "[0..<4] = [0, 1, 2, 3]" "[0..<1] = [0]"
  "replicate 4 (0::int) = [0, 0, 0, 0]"
  by (simp_all add: eval_nat_numeral)



lemma ex_build:
  "RandomIndexing_build example_env [(''dimensionality'', PInt 4), (''num_indices'', PInt 2)] 0
      ([(''a'', [''b'']), (''b'', [''a'']), (''c'', [])], None)
    = Inr (([[- 1, 0, 0, 1], [1, - 1, 0, 0], [0, 0, 0, 0]], [''a'', ''b'', ''c''], [0, 1, 2, 3]),
           3010)"
  by (simp add: ri_eval_defs upt_small)



theorem build_independent_of_generator_state_witness:
  "map_sum id fst
     (RandomIndexing_build example_env [(''dimensionality'', PInt 4), (''num_indices'', PInt 2)] 7
        ([(''a'', [''b'']), (''b'', [''a'']), (''c'', [])], None))
   = Inr ([[- 1, 0, 0, 1], [1, - 1, 0, 0], [0, 0, 0, 0]], [''a'', ''b'', ''c''], [0, 1, 2, 3])"
  using build_independent_of_generator_state
    [of example_env "[(''dimensionality'', PInt 4), (''num_indices'', PInt 2)]" 7
        "([(''a'', [''b'']), (''b'', [''a'']), (''c'', [])], None)" 0]
  by (simp add: ex_build)

text \<open>
  Claim C10. Let the numpy contract hold, the configuration give a positive
  \<open>dimensionality\<close> and a \<open>num_indices\<close> that is not negative, and let a focus token occur
  among the pairs with empty context lists only. Then the random-indexing accumulation
  returns, and its result has a row for that token, all zero; the co-occurrence
  accumulation returns a mapping in which the token is not a key.
\<close>

theorem empty_contexts_row:
  assumes "choice_ok env" "map_of config ''num_indices'' = Some n" "0 \<le> as_int n"
    and "map_of config ''dimensionality'' = Some d" "0 < as_int d"
    and "\<forall>cs. (focus, cs) \<in> set pairs \<longrightarrow> cs = []"
    and "focus \<in> fst ` set pairs"
  shows "\<exists>values rows cols g' colloc_dict.
           RandomIndexing_build env config g (pairs, None) = Inr ((values, rows, cols), g') \<and>
           (focus, replicate (nat (as_int d)) 0) \<in> set (zip rows values) \<and>
           CooccurrenceDSM_build (pairs, None) = Inr colloc_dict \<and>
           \<not> dict_contains colloc_dict focus"
proof -
  from assms(7) have ne: "pairs \<noteq> []" by auto
  from RandomIndexing_build_returns [OF assms(1-5) ne, of g] obtain vals rows cols g' where
    b: "RandomIndexing_build env config g (pairs, None) = Inr ((vals, rows, cols), g')"
    by blast
  have c: "CooccurrenceDSM_build (pairs, None) = Inr (count_pairs pairs [])"
    by (simp add: CooccurrenceDSM_build_def)
  from zero_row_if_built [OF assms(6,7,4) b c] b c show ?thesis by blast
qed

theorem empty_contexts_row_witness:
  "choice_ok example_env \<and>
   concat (map snd (filter (\<lambda>p. fst p = ''c'')
     [(''a'', [''b'']), (''b'', [''a'']), (''c'', [])])) = [] \<and>
   ''c'' \<in> fst ` set [(''a'', [''b'']), (''b'', [''a'']), (''c'', [])] \<and>
   RandomIndexing_build example_env [(''dimensionality'', PInt 4), (''num_indices'', PInt 2)] 0
      ([(''a'', [''b'']), (''b'', [''a'']), (''c'', [])], None)
    = Inr (([[- 1, 0, 0, 1], [1, - 1, 0, 0], [0, 0, 0, 0]], [''a'', ''b'', ''c''],
            [0, 1, 2, 3]), 3010) \<and>
   (''c'', replicate 4 (0::int)) \<in>
      set (zip [''a'', ''b'', ''c''] [[- 1, 0, 0, 1], [1, - 1, 0, 0], [0, 0, 0, 0]]) \<and>
   CooccurrenceDSM_build ([(''a'', [''b'']), (''b'', [''a'']), (''c'', [])], None)
    = Inr [(''a'', [(''b'', 1)]), (''b'', [(''a'', 1)])]"
proof -
  have e: "\<forall>cs. (''c'', cs) \<in> set [(''a'', [''b'']), (''b'', [''a'']), (''c'', [])] \<longrightarrow> cs = []"
    by simp
  have f: "''c'' \<in> fst ` set [(''a'', [''b'']), (''b'', [''a'']), (''c'', [])]" by simp
  have n: "map_of [(''dimensionality'', PInt 4), (''num_indices'', PInt 2)] ''num_indices''
             = Some (PInt 2)" by simp
  have d: "map_of [(''dimensionality'', PInt 4), (''num_indices'', PInt 2)] ''dimensionality''
             = Some (PInt 4)" by simp
  have c: "CooccurrenceDSM_build ([(''a'', [''b'']), (''b'', [''a'']), (''c'', [])], None)
             = Inr [(''a'', [(''b'', 1)]), (''b'', [(''a'', 1)])]"
    by (simp add: CooccurrenceDSM_build_def count_pairs_def incr_count_def dd_getitem_def
        dict_setitem_def)
  from empty_contexts_row [OF example_env_ok n _ d _ e f, of 0]
  have "(''c'', replicate 4 (0::int)) \<in>
      set (zip [''a'', ''b'', ''c''] [[- 1, 0, 0, 1], [1, - 1, 0, 0], [0, 0, 0, 0]])"
    by (auto simp: ex_build upt_small)
  with e f c example_env_ok ex_build show ?thesis by simp
qed

section \<open>The window size check of the random-indexing constructor\<close>

lemma emit_focus_error:
  "fst (emit_focus ws config sentence i focus v) = Inl e \<Longrightarrow> \<not> is_TypeError e"
  by (cases "map_of config ''lower_threshold''")
     (auto simp: emit_focus_def dict_getitem_def case_prod_beta Let_def)

lemma focus_step_raised_ok:
  assumes "raised_ok st"
  shows "raised_ok (focus_step ws config sentence i focus st)"
proof -
  obtain out raised v where st: "st = (out, raised, v)" by (cases st)
  show ?thesis
  proof (cases raised)
    case (Some e)
    with assms show ?thesis by (simp add: st focus_step_def)
  next
    case None
    obtain r v' where e: "emit_focus ws config sentence i focus v = (r, v')"
      by (cases "emit_focus ws config sentence i focus v")
    show ?thesis
    proof (cases r)
      case (Inl err)
      with e emit_focus_error [of ws config sentence i focus v err]
      show ?thesis by (simp add: st None focus_step_def raised_ok_def)
    next
      case (Inr p)
      with e show ?thesis by (simp add: st None focus_step_def raised_ok_def)
    qed
  qed
qed

lemma vocabularize_raised_ok: "raised_ok (vocabularize tok ws config vocabulary corpus)"
  unfolding vocabularize_def
proof (rule fold_invariant [where I = raised_ok])
  show "raised_ok ([], None, vocabulary)" by (simp add: raised_ok_def)
next
  fix sentence st
  assume I: "raised_ok st"
  show "raised_ok (sentence_step ws config sentence st)"
    unfolding sentence_step_def
  proof (rule fold_invariant [where I = raised_ok, OF _ I])
    fix x :: "nat \<times> word" and st' :: gen_state
    assume I': "raised_ok st'"
    obtain i w where x: "x = (i, w)" by (cases x)
    have "raised_ok (fold (focus_step ws config sentence i) (focuses_of w) st')"
      by (rule fold_invariant [where I = raised_ok, OF _ I']) (rule focus_step_raised_ok)
    then show "raised_ok ((case x of (i, focuses) \<Rightarrow>
        fold (focus_step ws config sentence i) (focuses_of focuses)) st')"
      by (simp add: x)
  qed
qed

lemma np_add_at_error: "np_add_at a idx c = Inl e \<Longrightarrow> \<not> is_TypeError e"
  by (induction idx arbitrary: a) (auto split: if_splits)

lemma index_vector_error:
  "index_vector env config indices ctx st = Inl e \<Longrightarrow> \<not> is_TypeError e"
  by (cases st)
     (auto simp: index_vector_def dict_getitem_def Let_def split: option.splits)

lemma context_indices_error:
  "context_indices env config indices contexts st = Inl e \<Longrightarrow> \<not> is_TypeError e"
proof (induction contexts arbitrary: st)
  case Nil
  then show ?case by simp
next
  case (Cons ctx contexts)
  obtain p n w g where st: "st = (p, n, w, g)" by (cases st)
  show ?case
  proof (cases "index_vector env config indices ctx (w, g)")
    case (Inl e')
    with Cons.prems have "e' = e" by (simp add: st)
    with Inl index_vector_error show ?thesis by blast
  next
    case (Inr r)
    obtain v w' g' where "r = (v, w', g')" by (cases r)
    with Inr Cons.prems have
      "context_indices env config indices contexts
         (p @ [pos_half v], n @ [neg_half v], w', g') = Inl e"
      by (simp add: st)
    then show ?thesis by (rule Cons.IH)
  qed
qed

lemma accumulate_pair_error:
  "accumulate_pair env config dim indices pair st = Inl e \<Longrightarrow> \<not> is_TypeError e"
  by (cases pair; cases st)
     (auto simp: accumulate_pair_def np_zeros_def
        split: option.splits sum.splits if_splits
        dest: context_indices_error np_add_at_error)

lemma accumulate_error:
  "accumulate env config dim indices pairs st = Inl e \<Longrightarrow> \<not> is_TypeError e"
proof (induction pairs arbitrary: st)
  case Nil
  then show ?case by simp
next
  case (Cons pair pairs)
  show ?case
  proof (cases "accumulate_pair env config dim indices pair st")
    case (Inl e')
    with Cons.prems have "e' = e" by simp
    with Inl accumulate_pair_error show ?thesis by blast
  next
    case (Inr st')
    with Cons.prems have "accumulate env config dim indices pairs st' = Inl e" by simp
    then show ?thesis by (rule Cons.IH)
  qed
qed

lemma RandomIndexing_build_error:
  assumes "RandomIndexing_build env config g (out, raised) = Inl e"
    and "raised_ok (out, raised, v)"
  shows "\<not> is_TypeError e"
proof (cases "map_of config ''dimensionality''")
  case None
  with assms(1) show ?thesis by (auto simp: RandomIndexing_build_def dict_getitem_def)
next
  case (Some d)
  show ?thesis
  proof (cases "accumulate env config (as_int d) (np_arange (as_int d)) out ([], [], g)")
    case (Inl e')
    with assms(1) Some have "e' = e" by (simp add: RandomIndexing_build_def dict_getitem_def)
    with Inl accumulate_error show ?thesis by blast
  next
    case (Inr r)
    with assms Some show ?thesis
      by (cases raised)
         (auto simp: RandomIndexing_build_def dict_getitem_def raised_ok_def
            split: prod.splits if_splits)
  qed
qed

lemma build_matrix_error:
  assumes "build_matrix env RandomIndexing ws config vocabulary corpus g = Inl e"
  shows "\<not> is_TypeError e"
proof -
  obtain out raised v where
    voc: "vocabularize (tokenize env) ws config vocabulary corpus = (out, raised, v)"
    by (cases "vocabularize (tokenize env) ws config vocabulary corpus")
  have ok: "raised_ok (out, raised, v)"
    using vocabularize_raised_ok [of "tokenize env" ws config vocabulary corpus] voc by simp
  from assms voc have "RandomIndexing_build env config g (out, raised) = Inl e"
    by (auto simp: build_matrix_def split: sum.splits prod.splits)
  from RandomIndexing_build_error [OF this ok] show ?thesis .
qed

text \<open>
  The sibling constructor passes \<open>config\<close> on: a random-indexing construction raises
  the window-size \<open>TypeError\<close> exactly when the window size does not have two elements,
  whatever the corpus, and no other step of it raises a \<open>TypeError\<close>.
\<close>

lemma RandomIndexing_init_window:
  "RandomIndexing_init env corpus ws config lower_threshold higher_threshold dimensionality
      num_indices vocabulary matrix ordered directed g
     = Inl (TypeError ''Window size must be a tuple of length 2.'')
   \<longleftrightarrow> length ws \<noteq> 2"
proof
  assume l: "RandomIndexing_init env corpus ws config lower_threshold higher_threshold
      dimensionality num_indices vocabulary matrix ordered directed g
     = Inl (TypeError ''Window size must be a tuple of length 2.'')"
  show "length ws \<noteq> 2"
  proof
    assume len: "length ws = 2"
    show False
    proof (cases matrix)
      case None
      with l len obtain e where
        b: "build_matrix env RandomIndexing (ws ! 0, ws ! 1)
           (merge_kwargs [(''lower_threshold'', lower_threshold),
              (''higher_threshold'', higher_threshold), (''dimensionality'', dimensionality),
              (''num_indices'', num_indices), (''ordered'', ordered), (''directed'', directed)]
              (case config of Some (kv # rest) \<Rightarrow> kv # rest | _ \<Rightarrow> []))
           (case vocabulary of Some v \<Rightarrow> v | None \<Rightarrow> []) corpus g = Inl e"
        and t: "is_TypeError e"
        by (auto simp: RandomIndexing_init_def DSM_init_def Let_def split: sum.splits)
      from build_matrix_error [OF b] t show False by simp
    next
      case (Some m)
      with l len show False by (simp add: RandomIndexing_init_def DSM_init_def Let_def)
    qed
  qed
next
  assume "length ws \<noteq> 2"
  then show "RandomIndexing_init env corpus ws config lower_threshold higher_threshold
      dimensionality num_indices vocabulary matrix ordered directed g
     = Inl (TypeError ''Window size must be a tuple of length 2.'')"
    by (simp add: RandomIndexing_init_def DSM_init_def)
qed

end
